theory Spec2Isabelle
  imports Complex_Main "HOL-Library.Product_Lexorder" "HOL-Library.List_Lexorder"
begin

section \<open>JavaScript values and strings\<close>

text \<open>
  Strings are lists of characters; the model covers ASCII text, where a character is
  one code unit and \<open>length\<close> is the \<open>.length\<close> of the source. JSON payloads
  (\<open>unknown\<close> / \<open>any\<close> in the source) are values of \<open>json\<close>; \<open>undefined\<close> is
  \<open>None\<close> of an option type.
\<close>

datatype json =
    JNull
  | JBool bool
  | JNum rat
  | JStr string
  | JArr "json list"
  | JObj "(string \<times> json) list"

text \<open>A thrown exception, with its message.\<close>

datatype js_error = Error string | RangeError string | TypeError string

text \<open>Truthiness of a value that may be \<open>undefined\<close>.\<close>

fun truthy :: "json option \<Rightarrow> bool" where
  "truthy None = False"
| "truthy (Some JNull) = False"
| "truthy (Some (JBool b)) = b"
| "truthy (Some (JNum n)) = (n \<noteq> 0)"
| "truthy (Some (JStr s)) = (s \<noteq> [])"
| "truthy (Some (JArr xs)) = True"
| "truthy (Some (JObj kvs)) = True"

text \<open>\<open>a || b\<close> on optional strings: the empty string and \<open>undefined\<close> are falsy.\<close>

fun or_str :: "string option \<Rightarrow> string option \<Rightarrow> string option" where
  "or_str (Some a) b = (if a \<noteq> [] then Some a else b)"
| "or_str None b = b"

text \<open>\<open>String(a || "")\<close> and \<open>a ?? ""\<close> on an optional string.\<close>

fun or_empty :: "string option \<Rightarrow> string" where
  "or_empty (Some a) = a"
| "or_empty None = []"

definition isSpace :: "char \<Rightarrow> bool" where
  "isSpace c = (c = CHR '' '' \<or> c = CHR 0x09 \<or> c = CHR 0x0A \<or> c = CHR 0x0B
                \<or> c = CHR 0x0C \<or> c = CHR 0x0D)"

definition trim :: "string \<Rightarrow> string" where
  "trim s = rev (dropWhile isSpace (rev (dropWhile isSpace s)))"

text \<open>
  Case mapping on ASCII letters: \<open>A\<close>..\<open>Z\<close> (65..90) and \<open>a\<close>..\<open>z\<close> (97..122)
  differ by 32, which is bit 5 of the character.
\<close>

definition lowerChar :: "char \<Rightarrow> char" where
  "lowerChar c =
     (if 65 \<le> (of_char c :: nat) \<and> (of_char c :: nat) \<le> 90
      then (case c of Char b0 b1 b2 b3 b4 b5 b6 b7 \<Rightarrow> Char b0 b1 b2 b3 b4 True b6 b7) else c)"

definition upperChar :: "char \<Rightarrow> char" where
  "upperChar c =
     (if 97 \<le> (of_char c :: nat) \<and> (of_char c :: nat) \<le> 122
      then (case c of Char b0 b1 b2 b3 b4 b5 b6 b7 \<Rightarrow> Char b0 b1 b2 b3 b4 False b6 b7) else c)"

definition toLowerCase :: "string \<Rightarrow> string" where
  "toLowerCase s = map lowerChar s"

definition toUpperCase :: "string \<Rightarrow> string" where
  "toUpperCase s = map upperChar s"

definition startsWith :: "string \<Rightarrow> string \<Rightarrow> bool" where
  "startsWith s p = (take (length p) s = p)"

fun includes_str :: "string \<Rightarrow> string \<Rightarrow> bool" where
  "includes_str [] sub = (sub = [])"
| "includes_str (c # cs) sub = (startsWith (c # cs) sub \<or> includes_str cs sub)"

section \<open>traceStore.ts\<close>

datatype TraceKind = Kai | Kmaximo | Krest | Kui | Ksystem | Kmodels

text \<open>
  \<open>TraceItem\<close> and the argument of \<open>addTrace\<close> have the same fields; in the
  argument \<open>id\<close> and \<open>ts\<close> are optional. The record is polymorphic in the type of
  these two fields.
\<close>

record 'a TraceFields =
  t_id :: 'a
  t_ts :: 'a
  t_kind :: TraceKind
  t_provider :: "string option"
  t_ok :: "bool option"
  t_label :: "string option"
  t_method :: "string option"
  t_url :: "string option"
  t_status :: "int option"
  t_durationMs :: "int option"
  t_request :: "json option"
  t_response :: "json option"
  t_error :: "string option"

type_synonym TraceItem = "string TraceFields"
type_synonym TracePartial = "string option TraceFields"

text \<open>
  The module state: \<open>state\<close> (\<open>enabled\<close>, \<open>maxItems\<close> and the other keys, \<open>aux\<close>)
  and the array \<open>items\<close>. \<open>maxItems\<close> is an integer; \<open>setTraceState\<close> can store a
  negative one.
\<close>

record TraceStore =
  enabled :: bool
  maxItems :: int
  aux :: "(string \<times> json) list"
  items :: "TraceItem list"

text \<open>An \<open>addTrace\<close> argument with only \<open>kind\<close> set.\<close>

definition blank :: "TraceKind \<Rightarrow> TracePartial" where
  "blank k =
     \<lparr>t_id = None, t_ts = None, t_kind = k, t_provider = None, t_ok = None, t_label = None,
      t_method = None, t_url = None, t_status = None, t_durationMs = None, t_request = None,
      t_response = None, t_error = None\<rparr>"

definition initialStore :: TraceStore where
  "initialStore = \<lparr>enabled = True, maxItems = 500, aux = [], items = []\<rparr>"

text \<open>
  The object literal of \<open>addTrace\<close>. \<open>gen\<close> is what \<open>makeId()\<close> and
  \<open>new Date().toISOString()\<close> return at this call. The literal lists eleven fields:
  \<open>provider\<close> and \<open>ok\<close> are not among them, so they are \<open>undefined\<close> in the item.
\<close>

definition makeItem :: "string \<times> string \<Rightarrow> TracePartial \<Rightarrow> TraceItem" where
  "makeItem gen partial =
     \<lparr>t_id = (case t_id partial of Some i \<Rightarrow> i | None \<Rightarrow> fst gen),
      t_ts = (case t_ts partial of Some t \<Rightarrow> t | None \<Rightarrow> snd gen),
      t_kind = t_kind partial,
      t_provider = None,
      t_ok = None,
      t_label = t_label partial,
      t_method = t_method partial,
      t_url = t_url partial,
      t_status = t_status partial,
      t_durationMs = t_durationMs partial,
      t_request = t_request partial,
      t_response = t_response partial,
      t_error = t_error partial\<rparr>"

text \<open>
  \<open>items.unshift(item); if (items.length > state.maxItems) items.length = state.maxItems\<close>.
  Assigning a negative length raises RangeError, after the unshift.
\<close>

definition addTrace :: "string \<times> string \<Rightarrow> TracePartial \<Rightarrow> TraceStore \<Rightarrow> js_error option \<times> TraceStore" where
  "addTrace gen partial st =
     (if \<not> enabled st then (None, st)
      else
        let unshifted = makeItem gen partial # items st in
        if int (length unshifted) > maxItems st then
          (if maxItems st < 0 then (Some (RangeError ''Invalid array length''), st\<lparr>items := unshifted\<rparr>)
           else (None, st\<lparr>items := take (nat (maxItems st)) unshifted\<rparr>))
        else (None, st\<lparr>items := unshifted\<rparr>))"

text \<open>\<open>xs.slice(0, n)\<close>: a negative \<open>n\<close> counts from the end.\<close>

definition slice0 :: "'a list \<Rightarrow> int \<Rightarrow> 'a list" where
  "slice0 xs n = (if n < 0 then take (nat (int (length xs) + n)) xs else take (nat n) xs)"

text \<open>\<open>listTraces(kind?, limit = 200)\<close>.\<close>

definition listTraces :: "TraceKind option \<Rightarrow> int option \<Rightarrow> TraceStore \<Rightarrow> TraceItem list" where
  "listTraces kind limit st =
     (let lim = (case limit of Some l \<Rightarrow> l | None \<Rightarrow> 200);
          filtered = (case kind of Some k \<Rightarrow> filter (\<lambda>i. t_kind i = k) (items st) | None \<Rightarrow> items st)
      in slice0 filtered (max 1 (min lim (maxItems st))))"

definition clearTraces :: "TraceStore \<Rightarrow> TraceStore" where
  "clearTraces st = st\<lparr>items := []\<rparr>"

text \<open>A sequence of \<open>addTrace\<close> calls, each with its generated id and timestamp.\<close>

fun addTraces :: "((string \<times> string) \<times> TracePartial) list \<Rightarrow> TraceStore \<Rightarrow> TraceStore" where
  "addTraces [] st = st"
| "addTraces ((gen, partial) # calls) st = addTraces calls (snd (addTrace gen partial st))"

fun addTracesThrows :: "((string \<times> string) \<times> TracePartial) list \<Rightarrow> TraceStore \<Rightarrow> bool" where
  "addTracesThrows [] st = False"
| "addTracesThrows ((gen, partial) # calls) st =
     (fst (addTrace gen partial st) \<noteq> None \<or> addTracesThrows calls (snd (addTrace gen partial st)))"

definition builtItems :: "((string \<times> string) \<times> TracePartial) list \<Rightarrow> TraceItem list" where
  "builtItems calls = map (\<lambda>(gen, partial). makeItem gen partial) calls"

section \<open>providers.ts: credentials\<close>

text \<open>
  The settings object (\<open>secrets\<close>): a flat mapping from keys to strings; a key that is
  not set is \<open>undefined\<close>.
\<close>

type_synonym secrets = "string \<Rightarrow> string option"

record ProviderAuth =
  apiKey :: "string option"
  baseUrl :: "string option"

definition supportedProviders :: "string list" where
  "supportedProviders = [''openai'', ''anthropic'', ''gemini'', ''mistral'', ''watsonx'', ''deepseek'']"

definition OPENAI_COMPATIBLE :: "string list" where
  "OPENAI_COMPATIBLE = [''openai'', ''mistral'', ''watsonx'', ''deepseek'']"

text \<open>\<open>s || undefined\<close> on a string.\<close>

definition or_undefined :: "string \<Rightarrow> string option" where
  "or_undefined s = (if s \<noteq> [] then Some s else None)"

text \<open>
  \<open>map[provider] || {}\<close>: the pair (\<open>key\<close>, \<open>baseUrl\<close>) of the provider's row; both
  are \<open>undefined\<close> for a name that has no row.
\<close>

definition providerEntry :: "secrets \<Rightarrow> string \<Rightarrow> string option \<times> string option" where
  "providerEntry secrets provider =
     (if provider = ''openai'' then
        (secrets ''openai_key'', or_str (secrets ''openai_baseurl'') (secrets ''openai_base''))
      else if provider = ''mistral'' then
        (secrets ''mistral_key'', or_str (secrets ''mistral_baseurl'') (secrets ''mistral_base''))
      else if provider = ''deepseek'' then
        (secrets ''deepseek_key'', or_str (secrets ''deepseek_baseurl'') (secrets ''deepseek_base''))
      else if provider = ''watsonx'' then
        (secrets ''watsonx_key'', or_str (secrets ''watsonx_baseurl'') (secrets ''watsonx_base''))
      else if provider = ''anthropic'' then
        (secrets ''anthropic_key'', or_str (secrets ''anthropic_baseurl'') (secrets ''anthropic_base''))
      else if provider = ''gemini'' then
        (secrets ''gemini_key'', or_str (secrets ''gemini_baseurl'') (secrets ''gemini_base''))
      else (None, None))"

definition resolveProviderAuth :: "secrets \<Rightarrow> string \<Rightarrow> ProviderAuth" where
  "resolveProviderAuth secrets provider =
     (let entry = providerEntry secrets provider;
          chosenKey = trim (or_empty (fst entry));
          chosenBase = trim (or_empty (snd entry));
          genericProvider = toLowerCase (or_empty (secrets ''aiProvider''));
          allowGeneric = (genericProvider = provider);
          fallbackKey = (if allowGeneric then or_undefined (trim (or_empty (secrets ''aiApiKey''))) else None);
          fallbackBase = (if allowGeneric then or_undefined (trim (or_empty (secrets ''aiBaseUrl''))) else None)
      in \<lparr>apiKey = or_str (Some chosenKey) fallbackKey,
          baseUrl = or_str (Some chosenBase) fallbackBase\<rparr>)"

text \<open>\<open>getSelectedProvider\<close>, on the stored secrets.\<close>

definition getSelectedProvider :: "secrets \<Rightarrow> string" where
  "getSelectedProvider secrets =
     (let p = toLowerCase (case or_str (secrets ''aiProvider'') (Some ''openai'') of Some v \<Rightarrow> v | None \<Rightarrow> [])
      in if p = ''anthropic'' \<or> p = ''gemini'' \<or> p = ''mistral'' \<or> p = ''watsonx'' \<or> p = ''deepseek''
         then p else ''openai'')"

section \<open>providers.ts: model ids\<close>

text \<open>\<open>Array.from(new Set(xs))\<close>: the first occurrence of each element, in order.\<close>

definition uniq :: "'a list \<Rightarrow> 'a list" where
  "uniq xs = rev (remdups (rev xs))"

definition isDigit :: "char \<Rightarrow> bool" where
  "isDigit c = (48 \<le> (of_char c :: nat) \<and> (of_char c :: nat) \<le> 57)"

text \<open>
  The two regular expressions of \<open>filterModelIds\<close>, both with the flag \<open>i\<close>:
  \<open>/^(gpt-|o\d|chatgpt)/\<close> and \<open>/(davinci|curie|babbage|ada|text-|code-|instruct|deprecated)/\<close>.
\<close>

definition modernFamily :: "string \<Rightarrow> bool" where
  "modernFamily i =
     (let l = toLowerCase i in
      startsWith l ''gpt-''
      \<or> (case l of c # d # _ \<Rightarrow> c = CHR ''o'' \<and> isDigit d | _ \<Rightarrow> False)
      \<or> startsWith l ''chatgpt'')"

definition legacyName :: "string \<Rightarrow> bool" where
  "legacyName i =
     (let l = toLowerCase i in
      includes_str l ''davinci'' \<or> includes_str l ''curie'' \<or> includes_str l ''babbage''
      \<or> includes_str l ''ada'' \<or> includes_str l ''text-'' \<or> includes_str l ''code-''
      \<or> includes_str l ''instruct'' \<or> includes_str l ''deprecated'')"

definition preferredId :: "string \<Rightarrow> bool" where
  "preferredId i = (modernFamily i \<and> \<not> legacyName i)"

text \<open>
  \<open>xs.sort(cmp)\<close>. The sort of the runtime is stable; for a comparator that is a total
  preorder its result is the stable sorted arrangement, which insertion from the right
  computes.
\<close>

fun insertBy :: "('a \<Rightarrow> 'a \<Rightarrow> int) \<Rightarrow> 'a \<Rightarrow> 'a list \<Rightarrow> 'a list" where
  "insertBy cmp x [] = [x]"
| "insertBy cmp x (y # ys) = (if cmp x y \<le> 0 then x # y # ys else y # insertBy cmp x ys)"

fun sortBy :: "('a \<Rightarrow> 'a \<Rightarrow> int) \<Rightarrow> 'a list \<Rightarrow> 'a list" where
  "sortBy cmp [] = []"
| "sortBy cmp (x # xs) = insertBy cmp x (sortBy cmp xs)"

text \<open>
  \<open>filterModelIds\<close>. Its first argument stands for
  \<open>(a, b) => a.localeCompare(b, undefined, { numeric: true })\<close>, the collation of the
  runtime.
\<close>

definition filterModelIds :: "(string \<Rightarrow> string \<Rightarrow> int) \<Rightarrow> string \<Rightarrow> string list \<Rightarrow> string list" where
  "filterModelIds localeCompare provider ids =
     (let uniqIds = uniq (filter (\<lambda>i. i \<noteq> []) ids) in
      if provider \<noteq> ''openai'' then uniqIds
      else
        let preferred = filter preferredId uniqIds;
            out = (if preferred \<noteq> [] then preferred else uniqIds)
        in sortBy localeCompare out)"

text \<open>
  A numeric-aware lexicographic comparison on ASCII strings, to run \<open>filterModelIds\<close> on
  concrete ids: a run of digits is one item compared by its value, any other character
  one item compared by its code.
\<close>

fun numericKey :: "nat option \<Rightarrow> string \<Rightarrow> (nat \<times> nat) list" where
  "numericKey acc [] = (case acc of None \<Rightarrow> [] | Some n \<Rightarrow> [(48, n)])"
| "numericKey acc (c # cs) =
     (if isDigit c
      then numericKey (Some (10 * (case acc of None \<Rightarrow> 0 | Some n \<Rightarrow> n) + (of_char c - 48))) cs
      else (case acc of None \<Rightarrow> [] | Some n \<Rightarrow> [(48, n)]) @ (of_char c, 0) # numericKey None cs)"

definition numericCompare :: "string \<Rightarrow> string \<Rightarrow> int" where
  "numericCompare a b =
     (if numericKey None a < numericKey None b then - 1
      else if numericKey None a = numericKey None b then 0 else 1)"

section \<open>The runtime and the world\<close>

record http_request =
  rq_url :: string
  rq_method :: string
  rq_headers :: "(string \<times> string) list"
  rq_body :: "string option"

record http_response =
  rs_status :: int
  rs_text :: string

definition rs_ok :: "http_response \<Rightarrow> bool" where
  "rs_ok resp = (200 \<le> rs_status resp \<and> rs_status resp \<le> 299)"

text \<open>
  What the handlers take from the platform: \<open>fetch\<close> (\<open>Inl\<close> when the promise rejects),
  \<open>JSON.parse\<close> (\<open>None\<close> when it throws), \<open>JSON.stringify\<close> with and without indentation,
  the conversion of a number to a string, the text \<open>String(Object)\<close> of the built-in
  \<open>Object\<close> function, \<open>encodeURIComponent\<close>,
  \<open>URLSearchParams.toString\<close>, and for the k-th trace item of a run the generated id and
  timestamp (\<open>stamp\<close>) and the measured duration (\<open>elapsed\<close>).
\<close>

record runtime =
  fetch :: "http_request \<Rightarrow> js_error + http_response"
  JSON_parse :: "string \<Rightarrow> json option"
  JSON_stringify :: "json \<Rightarrow> string"
  JSON_stringify_pretty :: "json \<Rightarrow> string"
  Number_toString :: "rat \<Rightarrow> string"
  Object_toString :: string
  encodeURIComponent :: "string \<Rightarrow> string"
  searchParams :: "(string \<times> string) list \<Rightarrow> string"
  stamp :: "nat \<Rightarrow> string \<times> string"
  elapsed :: "nat \<Rightarrow> int"

text \<open>
  The state a handler works on: the trace store, the requests sent upstream so far (in
  order), and the number of trace items recorded so far in this run.
\<close>

record world =
  store :: TraceStore
  sent :: "http_request list"
  clock :: nat

definition initialWorld :: world where
  "initialWorld = \<lparr>store = initialStore, sent = [], clock = 0\<rparr>"

text \<open>\<open>addTrace\<close> on the world; the caller fills in \<open>durationMs\<close> from the runtime.\<close>

definition record_trace :: "runtime \<Rightarrow> TracePartial \<Rightarrow> world \<Rightarrow> js_error option \<times> world" where
  "record_trace rt partial w =
     (let r = addTrace (stamp rt (clock w)) partial (store w)
      in (fst r, w\<lparr>store := snd r, clock := Suc (clock w)\<rparr>))"

text \<open>\<open>await fetch(...)\<close>: the request is sent, then answered or rejected.\<close>

definition do_fetch :: "runtime \<Rightarrow> http_request \<Rightarrow> world \<Rightarrow> (js_error + http_response) \<times> world" where
  "do_fetch rt req w = (fetch rt req, w\<lparr>sent := sent w @ [req]\<rparr>)"

text \<open>Decimal digits of a natural number (\<open>String(n)\<close> on a non-negative integer).\<close>

function decimal :: "nat \<Rightarrow> string" where
  "decimal n = (if n < 10 then [''0123456789'' ! n] else decimal (n div 10) @ [''0123456789'' ! (n mod 10)])"
  by pat_completeness auto
termination
  by (relation "measure id") auto

definition int_string :: "int \<Rightarrow> string" where
  "int_string i = (if i < 0 then CHR ''-'' # decimal (nat (- i)) else decimal (nat i))"

text \<open>\<open>x?.key\<close> and \<open>x?.[0]\<close> on a value that may be \<open>undefined\<close>.\<close>

fun getField :: "json option \<Rightarrow> string \<Rightarrow> json option" where
  "getField (Some (JObj kvs)) k = map_of kvs k"
| "getField _ k = None"

fun getFirst :: "json option \<Rightarrow> json option" where
  "getFirst (Some (JArr xs)) = (case xs of [] \<Rightarrow> None | x # _ \<Rightarrow> Some x)"
| "getFirst (Some (JStr s)) = (case s of [] \<Rightarrow> None | c # _ \<Rightarrow> Some (JStr [c]))"
| "getFirst (Some (JObj kvs)) = map_of kvs ''0''"
| "getFirst _ = None"

text \<open>\<open>a ?? b\<close>: \<open>b\<close> when \<open>a\<close> is \<open>null\<close> or \<open>undefined\<close>.\<close>

fun nullish :: "json option \<Rightarrow> json \<Rightarrow> json" where
  "nullish None b = b"
| "nullish (Some JNull) b = b"
| "nullish (Some a) b = a"

text \<open>\<open>xs.join(sep)\<close> on strings.\<close>

fun joinWith :: "string \<Rightarrow> string list \<Rightarrow> string" where
  "joinWith sep [] = []"
| "joinWith sep [x] = x"
| "joinWith sep (x # y # ys) = x @ sep @ joinWith sep (y # ys)"

text \<open>\<open>String(v)\<close> on a JSON value.\<close>

fun js_String :: "(rat \<Rightarrow> string) \<Rightarrow> json \<Rightarrow> string" where
  "js_String num JNull = ''null''"
| "js_String num (JBool b) = (if b then ''true'' else ''false'')"
| "js_String num (JNum n) = num n"
| "js_String num (JStr s) = s"
| "js_String num (JArr xs) =
     joinWith '','' (map (\<lambda>x. if x = JNull then [] else js_String num x) xs)"
| "js_String num (JObj kvs) = ''[object Object]''"

text \<open>\<open>e?.message || String(e)\<close> in the handlers' \<open>catch\<close>.\<close>

fun errorText :: "js_error \<Rightarrow> string" where
  "errorText (Error m) = (if m \<noteq> [] then m else ''Error'')"
| "errorText (RangeError m) = (if m \<noteq> [] then m else ''RangeError'')"
| "errorText (TypeError m) = (if m \<noteq> [] then m else ''TypeError'')"

section \<open>maximo.ts\<close>

text \<open>\<open>s.replace(/\/$/, "")\<close>.\<close>

definition stripTrailingSlash :: "string \<Rightarrow> string" where
  "stripTrailingSlash s = (if s \<noteq> [] \<and> last s = CHR ''/'' then butlast s else s)"

text \<open>
  \<open>s.replace(/\/(oslc|api)(\/.*)?$/i, "")\<close>. \<open>apiSuffixAt t\<close> says that the pattern
  matches the whole remainder \<open>t\<close>: a slash, \<open>oslc\<close> or \<open>api\<close> in any case, and then either
  the end or a slash and further characters, none a line terminator (the dot of the
  pattern does not match one). The first (leftmost) match is removed.
\<close>

definition isLineTerminator :: "char \<Rightarrow> bool" where
  "isLineTerminator c = (c = CHR 0x0A \<or> c = CHR 0x0D)"

definition subPath :: "string \<Rightarrow> bool" where
  "subPath r = (r = [] \<or> (hd r = CHR ''/'' \<and> list_all (\<lambda>c. \<not> isLineTerminator c) r))"

definition apiSuffixAt :: "string \<Rightarrow> bool" where
  "apiSuffixAt t =
     ((startsWith (toLowerCase t) ''/oslc'' \<and> subPath (drop 5 t))
      \<or> (startsWith (toLowerCase t) ''/api'' \<and> subPath (drop 4 t)))"

fun stripApiSuffix :: "string \<Rightarrow> string" where
  "stripApiSuffix [] = []"
| "stripApiSuffix (c # cs) = (if apiSuffixAt (c # cs) then [] else c # stripApiSuffix cs)"

definition normalizeBase :: "string \<Rightarrow> string" where
  "normalizeBase base = stripApiSuffix (stripTrailingSlash base)"

text \<open>\<open>JSON.parse(text)\<close> in \<open>try\<close>, \<open>null\<close> on failure, and \<open>data ?? text\<close>.\<close>

definition parse_or_null :: "runtime \<Rightarrow> string \<Rightarrow> json" where
  "parse_or_null rt text = (case JSON_parse rt text of Some d \<Rightarrow> d | None \<Rightarrow> JNull)"

definition data_or_text :: "runtime \<Rightarrow> string \<Rightarrow> json" where
  "data_or_text rt text = nullish (Some (parse_or_null rt text)) (JStr text)"

text \<open>The request \<open>callMaximoWith\<close> sends, and the trace item it records.\<close>

definition maximoUrl :: "string \<Rightarrow> string \<Rightarrow> string" where
  "maximoUrl base path = base @ (if startsWith path ''/'' then path else ''/'' @ path)"

definition maximoRequest :: "runtime \<Rightarrow> string \<Rightarrow> string \<Rightarrow> string \<Rightarrow> json option \<Rightarrow> http_request" where
  "maximoRequest rt url key method body =
     \<lparr>rq_url = url, rq_method = method,
      rq_headers = [(''Content-Type'', ''application/json''), (''maxauth'', key), (''apikey'', key)],
      rq_body = (if truthy body then map_option (JSON_stringify rt) body else None)\<rparr>"

definition maximoTrace ::
  "runtime \<Rightarrow> string \<Rightarrow> string \<Rightarrow> json option \<Rightarrow> http_response \<Rightarrow> nat \<Rightarrow> TracePartial" where
  "maximoTrace rt url method body resp k =
     (blank Kmaximo)\<lparr>t_label := Some ''Maximo call'', t_method := Some method,
        t_url := Some url, t_status := Some (rs_status resp),
        t_durationMs := Some (elapsed rt k),
        t_request := Some (nullish body JNull),
        t_response := Some (data_or_text rt (rs_text resp))\<rparr>"

definition maximoError :: "http_response \<Rightarrow> js_error" where
  "maximoError resp = Error (''Maximo error ('' @ int_string (rs_status resp) @ ''): '' @ rs_text resp)"

definition callMaximoWith ::
  "runtime \<Rightarrow> secrets \<Rightarrow> string \<Rightarrow> string \<Rightarrow> json option \<Rightarrow> world \<Rightarrow> (js_error + json) \<times> world" where
  "callMaximoWith rt secrets path method body w =
     (let base0 = or_empty (or_str (secrets ''maximoUrl'') (secrets ''maximo_url''));
          apiKey = or_empty (or_str (secrets ''maximoApiKey'') (secrets ''maximo_apikey''))
      in if base0 = [] then (Inl (Error ''Maximo Manage URL is not configured.''), w)
         else if apiKey = [] then (Inl (Error ''Maximo API key is not configured.''), w)
         else
           let url = maximoUrl (normalizeBase base0) path;
               fetched = do_fetch rt (maximoRequest rt url apiKey method body) w
           in case fst fetched of
                Inl e \<Rightarrow> (Inl e, snd fetched)
              | Inr resp \<Rightarrow>
                  let traced = record_trace rt
                        (maximoTrace rt url method body resp (clock (snd fetched))) (snd fetched)
                  in case fst traced of
                       Some e \<Rightarrow> (Inl e, snd traced)
                     | None \<Rightarrow>
                         if \<not> rs_ok resp then (Inl (maximoError resp), snd traced)
                         else (Inr (data_or_text rt (rs_text resp)), snd traced))"

section \<open>providers.ts: chat completion\<close>

record ChatArgs =
  a_provider :: string
  a_apiKey :: "string option"
  a_baseUrl :: "string option"
  a_model :: string
  a_temperature :: "rat option"
  a_system :: "string option"
  a_prompt :: string

record ChatResult =
  cr_content :: json
  cr_raw :: json

text \<open>
  The steps the three protocol branches share: \<open>fetch\<close> with method POST, read the text,
  parse it (\<open>null\<close> on failure), and record the call with \<open>kind: "ai"\<close>. The result is the
  response and the parsed data.
\<close>

definition aiTrace ::
  "runtime \<Rightarrow> string \<Rightarrow> string \<Rightarrow> json \<Rightarrow> http_response \<Rightarrow> nat \<Rightarrow> TracePartial" where
  "aiTrace rt lbl url body resp k =
     (blank Kai)\<lparr>t_label := Some lbl, t_method := Some ''POST'', t_url := Some url,
        t_status := Some (rs_status resp),
        t_durationMs := Some (elapsed rt k),
        t_request := Some body,
        t_response := Some (data_or_text rt (rs_text resp))\<rparr>"

definition post_and_trace ::
  "runtime \<Rightarrow> string \<Rightarrow> string \<Rightarrow> (string \<times> string) list \<Rightarrow> json \<Rightarrow> world
     \<Rightarrow> (js_error + http_response \<times> json) \<times> world" where
  "post_and_trace rt lbl url headers body w =
     (let req = \<lparr>rq_url = url, rq_method = ''POST'', rq_headers = headers,
                 rq_body = Some (JSON_stringify rt body)\<rparr>;
          fetched = do_fetch rt req w
      in case fst fetched of
           Inl e \<Rightarrow> (Inl e, snd fetched)
         | Inr resp \<Rightarrow>
             let traced = record_trace rt (aiTrace rt lbl url body resp (clock (snd fetched))) (snd fetched)
             in case fst traced of
                  Some e \<Rightarrow> (Inl e, snd traced)
                | None \<Rightarrow> (Inr (resp, parse_or_null rt (rs_text resp)), snd traced))"

text \<open>\<open>a || b || ...\<close> ending in a string, as the message of \<open>new Error(...)\<close>.\<close>

fun first_truthy :: "(rat \<Rightarrow> string) \<Rightarrow> json option list \<Rightarrow> string \<Rightarrow> string" where
  "first_truthy num [] d = d"
| "first_truthy num (v # vs) d =
     (if truthy v then (case v of Some j \<Rightarrow> js_String num j | None \<Rightarrow> d) else first_truthy num vs d)"

definition providerErrorText :: "http_response \<Rightarrow> string" where
  "providerErrorText resp = ''AI provider error ('' @ int_string (rs_status resp) @ '')''"

text \<open>\<open>parts.map((p) => p?.text || "").join("")\<close>.\<close>

definition joinTexts :: "(rat \<Rightarrow> string) \<Rightarrow> json list \<Rightarrow> string" where
  "joinTexts num parts =
     concat (map (\<lambda>p. first_truthy num [getField (Some p) ''text''] []) parts)"

text \<open>The three protocol branches of \<open>chatCompletionWith\<close>, after the key check.\<close>

definition chatTemperature :: "ChatArgs \<Rightarrow> rat" where
  "chatTemperature args = (case a_temperature args of Some t \<Rightarrow> t | None \<Rightarrow> 1 / 5)"

definition openaiUrl :: "ChatArgs \<Rightarrow> string" where
  "openaiUrl args =
     stripTrailingSlash (or_empty (or_str (a_baseUrl args) (Some ''https://api.openai.com/v1'')))
       @ ''/chat/completions''"

definition openaiBody :: "ChatArgs \<Rightarrow> json" where
  "openaiBody args =
     JObj [(''model'', JStr (a_model args)),
           (''messages'', JArr
              ((if or_empty (a_system args) \<noteq> []
                then [JObj [(''role'', JStr ''system''), (''content'', JStr (or_empty (a_system args)))]]
                else [])
               @ [JObj [(''role'', JStr ''user''), (''content'', JStr (a_prompt args))]])),
           (''temperature'', JNum (chatTemperature args))]"

definition openaiChat :: "runtime \<Rightarrow> ChatArgs \<Rightarrow> world \<Rightarrow> (js_error + ChatResult) \<times> world" where
  "openaiChat rt args w =
     (let posted = post_and_trace rt ''Chat completion'' (openaiUrl args)
            [(''Authorization'', ''Bearer '' @ trim (or_empty (a_apiKey args))),
             (''Content-Type'', ''application/json'')]
            (openaiBody args) w
      in case fst posted of
           Inl e \<Rightarrow> (Inl e, snd posted)
         | Inr (resp, data) \<Rightarrow>
             if \<not> rs_ok resp then
               (Inl (Error (first_truthy (Number_toString rt)
                  [getField (getField (Some data) ''error'') ''message'', Some (JStr (rs_text resp))]
                  (providerErrorText resp))), snd posted)
             else
               (Inr \<lparr>cr_content = nullish
                       (getField (getField (getFirst (getField (Some data) ''choices'')) ''message'') ''content'')
                       (JStr []),
                     cr_raw = data\<rparr>, snd posted))"

definition anthropicUrl :: "ChatArgs \<Rightarrow> string" where
  "anthropicUrl args =
     stripTrailingSlash (or_empty (or_str (a_baseUrl args) (Some ''https://api.anthropic.com'')))
       @ ''/v1/messages''"

definition anthropicBody :: "ChatArgs \<Rightarrow> json" where
  "anthropicBody args =
     JObj ([(''model'', JStr (a_model args)), (''max_tokens'', JNum 1024),
            (''temperature'', JNum (chatTemperature args)),
            (''messages'', JArr [JObj [(''role'', JStr ''user''), (''content'', JStr (a_prompt args))]])]
           @ (if or_empty (a_system args) \<noteq> [] then [(''system'', JStr (or_empty (a_system args)))] else []))"

definition anthropicChat :: "runtime \<Rightarrow> ChatArgs \<Rightarrow> world \<Rightarrow> (js_error + ChatResult) \<times> world" where
  "anthropicChat rt args w =
     (let posted = post_and_trace rt ''Anthropic messages'' (anthropicUrl args)
            [(''x-api-key'', or_empty (a_apiKey args)), (''anthropic-version'', ''2023-06-01''),
             (''Content-Type'', ''application/json'')]
            (anthropicBody args) w
      in case fst posted of
           Inl e \<Rightarrow> (Inl e, snd posted)
         | Inr (resp, data) \<Rightarrow>
             if \<not> rs_ok resp then
               (Inl (Error (first_truthy (Number_toString rt)
                  [getField (getField (Some data) ''error'') ''message'', getField (Some data) ''message'',
                   Some (JStr (rs_text resp))]
                  (providerErrorText resp))), snd posted)
             else
               (Inr \<lparr>cr_content =
                       (case getField (Some data) ''content'' of
                          Some (JArr parts) \<Rightarrow> JStr (joinTexts (Number_toString rt) parts)
                        | _ \<Rightarrow> JStr []),
                     cr_raw = data\<rparr>, snd posted))"

definition geminiUrl :: "runtime \<Rightarrow> ChatArgs \<Rightarrow> string" where
  "geminiUrl rt args =
     stripTrailingSlash
       (or_empty (or_str (a_baseUrl args) (Some ''https://generativelanguage.googleapis.com/v1beta'')))
       @ ''/models/'' @ encodeURIComponent rt (a_model args) @ '':generateContent?key=''
       @ encodeURIComponent rt (or_empty (a_apiKey args))"

definition geminiBody :: "ChatArgs \<Rightarrow> json" where
  "geminiBody args =
     JObj [(''contents'', JArr [JObj [(''role'', JStr ''user''),
              (''parts'', JArr [JObj [(''text'',
                 JStr (if or_empty (a_system args) \<noteq> []
                       then or_empty (a_system args) @ [CHR 0x0A, CHR 0x0A] @ a_prompt args
                       else a_prompt args))]])]]),
           (''generationConfig'', JObj [(''temperature'', JNum (chatTemperature args))])]"

definition geminiChat :: "runtime \<Rightarrow> ChatArgs \<Rightarrow> world \<Rightarrow> (js_error + ChatResult) \<times> world" where
  "geminiChat rt args w =
     (let posted = post_and_trace rt ''Gemini generateContent'' (geminiUrl rt args)
            [(''Content-Type'', ''application/json'')] (geminiBody args) w
      in case fst posted of
           Inl e \<Rightarrow> (Inl e, snd posted)
         | Inr (resp, data) \<Rightarrow>
             if \<not> rs_ok resp then
               (Inl (Error (first_truthy (Number_toString rt)
                  [getField (getField (Some data) ''error'') ''message'', Some (JStr (rs_text resp))]
                  (providerErrorText resp))), snd posted)
             else
               (case getField (getField (getFirst (getField (Some data) ''candidates'')) ''content'') ''parts'' of
                  None \<Rightarrow> (Inr \<lparr>cr_content = JStr [], cr_raw = data\<rparr>, snd posted)
                | Some JNull \<Rightarrow> (Inr \<lparr>cr_content = JStr [], cr_raw = data\<rparr>, snd posted)
                | Some (JArr parts) \<Rightarrow>
                    (Inr \<lparr>cr_content = JStr (joinTexts (Number_toString rt) parts), cr_raw = data\<rparr>, snd posted)
                | Some _ \<Rightarrow> (Inl (TypeError ''parts.map is not a function''), snd posted)))"

definition chatCompletionWith :: "runtime \<Rightarrow> ChatArgs \<Rightarrow> world \<Rightarrow> (js_error + ChatResult) \<times> world" where
  "chatCompletionWith rt args w =
     (if or_empty (a_apiKey args) = [] then (Inl (Error ''AI API key is not configured.''), w)
      else if a_provider args \<in> set OPENAI_COMPATIBLE then openaiChat rt args w
      else if a_provider args = ''anthropic'' then anthropicChat rt args w
      else if a_provider args = ''gemini'' then geminiChat rt args w
      else (Inl (Error (''Provider '' @ [CHR 0x27] @ a_provider args @ [CHR 0x27]
                         @ '' is not supported by this build.'')), w))"

section \<open>The server: request tracing\<close>

record reply =
  r_status :: int
  r_body :: json

text \<open>
  The request as the tracing middleware sees it: method, \<open>originalUrl\<close> and the parsed
  body (\<open>req.body\<close>).
\<close>

record api_call =
  api_method :: string
  api_url :: string
  api_body :: "json option"

text \<open>
  \<open>res.status(code).json(body)\<close> under the middleware for \<open>/api/\<close> paths. The patched
  \<open>res.json\<close> records a \<open>rest\<close> item with \<open>status: res.statusCode\<close> and calls the
  framework's \<open>json\<close>, which serializes the body and hands it to \<open>this.send\<close>, here the
  patched \<open>res.send\<close>, which records a second item with the serialized body. Both
  \<open>addTrace\<close> calls are inside \<open>try ... catch\<close>, so a throw is dropped.
\<close>

definition apiTrace :: "runtime \<Rightarrow> api_call \<Rightarrow> int \<Rightarrow> json \<Rightarrow> world \<Rightarrow> TracePartial" where
  "apiTrace rt call statusCode body w =
     (blank Krest)\<lparr>t_label := Some ''API'', t_method := Some (api_method call),
        t_url := Some (api_url call), t_status := Some statusCode,
        t_durationMs := Some (elapsed rt (clock w)),
        t_request := Some (nullish (api_body call) JNull),
        t_response := Some body\<rparr>"

definition res_json :: "runtime \<Rightarrow> api_call \<Rightarrow> int \<Rightarrow> json \<Rightarrow> world \<Rightarrow> reply \<times> world" where
  "res_json rt call statusCode body w =
     (let w1 = snd (record_trace rt (apiTrace rt call statusCode body w) w);
          w2 = snd (record_trace rt (apiTrace rt call statusCode (JStr (JSON_stringify rt body)) w1) w1)
      in (\<lparr>r_status = statusCode, r_body = body\<rparr>, w2))"

section \<open>The server: POST /api/chat\<close>

text \<open>
  The fields the handler reads from the request body, each a string when present
  (\<open>temperature\<close> a number), \<open>settings\<close> as a mapping (empty when absent), and the body
  as parsed (\<open>c_raw\<close>), which only the request trace uses.
\<close>

record ChatRequest =
  c_raw :: "json option"
  c_mode :: "string option"
  c_src :: "string option"
  c_text :: "string option"
  c_prompt :: "string option"
  c_system :: "string option"
  c_temperature :: "rat option"
  c_provider :: "string option"
  c_model :: "string option"
  c_settings :: secrets
  c_maximoOS :: "string option"
  c_maximoOs :: "string option"
  c_os :: "string option"

record Heuristic =
  h_os :: string
  h_where :: string
  h_select :: string
  h_pageSize :: int

definition woSelect :: string where
  "woSelect = ''wonum,description,status,worktype,siteid,orgid,location,assetnum,reportdate''"

definition srSelect :: string where
  "srSelect = ''ticketid,description,status,reportedby,reportdate,siteid,orgid,location,assetnum''"

text \<open>
  The table of default selects is an object literal, read with the lower-cased object
  structure as the key. Such a lookup also finds what every object inherits from
  \<open>Object.prototype\<close>; of the inherited names only \<open>constructor\<close> and \<open>__proto__\<close> are
  lower case. Their values are the \<open>Object\<close> function and \<open>Object.prototype\<close>: both are
  truthy, the query parameter takes their conversion to a string, and in the serialised
  echo a function-valued field is left out and \<open>Object.prototype\<close> is the empty object.
\<close>

datatype SelectValue = SelectText string | ObjectConstructor | ObjectPrototype

definition defaultSelectByOS :: "string \<Rightarrow> SelectValue option" where
  "defaultSelectByOS os =
     (if os = ''mxapiasset''
      then Some (SelectText ''assetnum,description,location,parent,assethealth,siteid,assettype'')
      else if os = ''mxapiwo'' then Some (SelectText woSelect)
      else if os = ''mxapisr'' then Some (SelectText srSelect)
      else if os = ''mxapiinv'' then Some (SelectText ''itemnum,description,location,siteid,curbal,issueunit'')
      else if os = ''mxapilocation'' then Some (SelectText ''location,description,parent,siteid,type'')
      else if os = ''constructor'' then Some ObjectConstructor
      else if os = ''__proto__'' then Some ObjectPrototype
      else None)"

definition selectTruthy :: "SelectValue \<Rightarrow> bool" where
  "selectTruthy v = (case v of SelectText t \<Rightarrow> t \<noteq> [] | _ \<Rightarrow> True)"

definition selectParam :: "runtime \<Rightarrow> SelectValue \<Rightarrow> string" where
  "selectParam rt v =
     (case v of SelectText t \<Rightarrow> t | ObjectConstructor \<Rightarrow> Object_toString rt
      | ObjectPrototype \<Rightarrow> ''[object Object]'')"

definition selectEcho :: "SelectValue \<Rightarrow> (string \<times> json) list" where
  "selectEcho v =
     (case v of SelectText t \<Rightarrow> [(''select'', JStr t)] | ObjectConstructor \<Rightarrow> []
      | ObjectPrototype \<Rightarrow> [(''select'', JObj [])])"

definition correctiveWhere :: string where
  \<open>correctiveWhere = ''woclass="WORKORDER" and worktype="CORRECTIVE"''\<close>

definition openWhere :: string where
  \<open>openWhere = ''woclass="WORKORDER" and status not in ["CLOSE","CAN","CANCEL","COMP"]''\<close>

text \<open>
  The keyword rules of the handler, on the object structure chosen in the UI (\<open>uiOS\<close>,
  empty when none) and the lower-cased input: the object structure, the filter
  (\<open>where\<close>), the field list and the page size.
\<close>

definition heuristics :: "string \<Rightarrow> string \<Rightarrow> Heuristic" where
  "heuristics uiOS lower =
     (let isWO = (includes_str lower ''work order'' \<or> includes_str lower ''workorder''
                   \<or> includes_str lower ''wo'');
          isSR = (includes_str lower ''service request'' \<or> includes_str lower ''servicerequest''
                   \<or> includes_str lower ''sr'');
          os = (if uiOS = [] then
                  (if includes_str lower ''location'' then ''mxapilocation''
                   else if includes_str lower ''asset'' then ''mxapiasset''
                   else if isSR then ''mxapisr''
                   else if includes_str lower ''inventory'' then ''mxapiinv''
                   else ''mxapiwo'')
                else uiOS)
      in if includes_str lower ''corrective'' \<and> isWO then
           \<lparr>h_os = os, h_where = correctiveWhere, h_select = woSelect, h_pageSize = 100\<rparr>
         else if includes_str lower ''open'' \<and> isWO then
           \<lparr>h_os = os, h_where = openWhere, h_select = woSelect, h_pageSize = 100\<rparr>
         else if isSR \<and> includes_str lower ''all'' then
           \<lparr>h_os = os, h_where = [], h_select = srSelect, h_pageSize = 100\<rparr>
         else \<lparr>h_os = os, h_where = [], h_select = [], h_pageSize = 50\<rparr>)"

definition summarizeIntent :: "string \<Rightarrow> bool" where
  "summarizeIntent lower =
     (includes_str lower ''summarize the last maximo results''
      \<or> (includes_str lower ''summarize'' \<and> includes_str lower ''last'' \<and> includes_str lower ''maximo''))"

text \<open>\<open>if (payload.length > 120_000) payload = payload.slice(0, 120_000) + "\n...TRUNCATED"\<close>.\<close>

definition boundPayload :: "string \<Rightarrow> string" where
  "boundPayload payload =
     (if length payload > 120000 then take 120000 payload @ CHR 0x0A # ''...TRUNCATED'' else payload)"

definition summarySystem :: string where
  "summarySystem = ''You are an assistant helping summarize IBM Maximo REST query results. Provide a clear, business-readable summary with key counts, notable statuses, and anomalies.''"

definition summaryPrompt :: string where
  "summaryPrompt = ''Summarize the following Maximo results (JSON). Include: total items, important fields, patterns, outliers, and a short recommended next step.'' @ [CHR 0x0A, CHR 0x0A]"

text \<open>The arguments both branches pass to \<open>chatCompletionWith\<close>.\<close>

definition chatArgs ::
  "secrets \<Rightarrow> string \<Rightarrow> string \<Rightarrow> rat \<Rightarrow> string option \<Rightarrow> string \<Rightarrow> ChatArgs" where
  "chatArgs mergedSecrets provider model temperature system prompt =
     (let auth = resolveProviderAuth mergedSecrets provider
      in \<lparr>a_provider = provider, a_apiKey = apiKey auth, a_baseUrl = baseUrl auth,
          a_model = or_empty (or_str (or_str (Some model) (mergedSecrets ''aiModel'')) (Some ''gpt-4o-mini'')),
          a_temperature = Some temperature, a_system = system, a_prompt = prompt\<rparr>)"

text \<open>\<open>listTraces("maximo", 1)[0]\<close> and its \<open>response\<close>.\<close>

definition lastMaximoTrace :: "TraceStore \<Rightarrow> TraceItem option" where
  "lastMaximoTrace st = (case listTraces (Some Kmaximo) (Some 1) st of [] \<Rightarrow> None | i # _ \<Rightarrow> Some i)"

definition lastMaximoResponse :: "TraceStore \<Rightarrow> json option" where
  "lastMaximoResponse st = (case lastMaximoTrace st of None \<Rightarrow> None | Some i \<Rightarrow> t_response i)"

definition noPreviousResults :: json where
  "noPreviousResults =
     JObj [(''error'', JStr ''No previous Maximo results found to summarize (Trace is empty).'')]"

definition summaryReply :: "ChatResult \<Rightarrow> TraceStore \<Rightarrow> json" where
  "summaryReply res st =
     JObj [(''reply'', cr_content res),
           (''maximo'', nullish (lastMaximoResponse st) JNull),
           (''request'', JObj
              ((''summaryOf'', JStr ''last-maximo'')
               # (let os = getField (case lastMaximoTrace st of None \<Rightarrow> None | Some i \<Rightarrow> t_request i) ''os''
                  in if truthy os then [(''os'', nullish os JNull)] else [])))]"

text \<open>The prompt of the summary: the fixed introduction and the bounded serialization.\<close>

definition summaryInput :: "runtime \<Rightarrow> TraceStore \<Rightarrow> string" where
  "summaryInput rt st =
     summaryPrompt @ boundPayload (JSON_stringify rt (nullish (lastMaximoResponse st) JNull))"

text \<open>
  The summarize branch: the newest \<open>maximo\<close> trace item's response goes to the AI
  provider; \<open>callMaximoWith\<close> is not called.
\<close>

definition summarizeLast ::
  "runtime \<Rightarrow> secrets \<Rightarrow> string \<Rightarrow> string \<Rightarrow> rat \<Rightarrow> string option \<Rightarrow> world
     \<Rightarrow> (js_error + int \<times> json) \<times> world" where
  "summarizeLast rt mergedSecrets provider model temperature system w =
     (if \<not> truthy (lastMaximoResponse (store w)) then (Inr (400, noPreviousResults), w)
      else
        let out = chatCompletionWith rt
              (chatArgs mergedSecrets provider model temperature
                 (or_str system (Some summarySystem)) (summaryInput rt (store w))) w
        in case fst out of
             Inl e \<Rightarrow> (Inl e, snd out)
           | Inr res \<Rightarrow> (Inr (200, summaryReply res (store w)), snd out))"

text \<open>The query built from the keyword rules: default field list, parameters, path, echo.\<close>

definition querySelect :: "Heuristic \<Rightarrow> SelectValue" where
  "querySelect h =
     (if h_select h = []
      then (case defaultSelectByOS (toLowerCase (h_os h)) of
              Some def \<Rightarrow> (if selectTruthy def then def else SelectText [])
            | None \<Rightarrow> SelectText [])
      else SelectText (h_select h))"

definition queryPath :: "runtime \<Rightarrow> Heuristic \<Rightarrow> string" where
  "queryPath rt h =
     (let params = [(''oslc.pageSize'', int_string (h_pageSize h))]
                   @ (if selectTruthy (querySelect h)
                      then [(''oslc.select'', selectParam rt (querySelect h))] else [])
                   @ (if h_where h \<noteq> [] then [(''oslc.where'', h_where h)] else [])
      in ''/api/os/'' @ encodeURIComponent rt (h_os h)
         @ (if searchParams rt params \<noteq> [] then ''?'' @ searchParams rt params else []))"

definition queryEcho :: "Heuristic \<Rightarrow> json" where
  "queryEcho h =
     JObj ([(''os'', JStr (h_os h)), (''where'', JStr (h_where h))] @ selectEcho (querySelect h)
           @ [(''pageSize'', JNum (of_int (h_pageSize h)))])"

text \<open>A backend call and the reply made from its data, with the echo when there is one.\<close>

definition maximoReply ::
  "runtime \<Rightarrow> secrets \<Rightarrow> string \<Rightarrow> json option \<Rightarrow> world \<Rightarrow> (js_error + int \<times> json) \<times> world" where
  "maximoReply rt mergedSecrets path echo w =
     (let called = callMaximoWith rt mergedSecrets path ''GET'' None w
      in case fst called of
           Inl e \<Rightarrow> (Inl e, snd called)
         | Inr data \<Rightarrow>
             (Inr (200, JObj
                ([(''reply'', JStr (JSON_stringify_pretty rt data)), (''maximo'', data)]
                 @ (case echo of Some r \<Rightarrow> [(''request'', r)] | None \<Rightarrow> []))),
              snd called))"

text \<open>What the handler reads from the request.\<close>

definition requestMode :: "ChatRequest \<Rightarrow> string" where
  "requestMode req =
     (if toLowerCase (or_empty (or_str (or_str (c_mode req) (c_src req)) (Some ''ai''))) = ''maximo''
      then ''maximo'' else ''ai'')"

definition requestText :: "ChatRequest \<Rightarrow> string" where
  "requestText req = or_empty (or_str (c_text req) (c_prompt req))"

definition requestTemperature :: "ChatRequest \<Rightarrow> rat" where
  "requestTemperature req = (case c_temperature req of Some t \<Rightarrow> t | None \<Rightarrow> 1 / 5)"

definition requestProvider :: "secrets \<Rightarrow> ChatRequest \<Rightarrow> string" where
  "requestProvider cfg req = toLowerCase (or_empty (or_str (c_provider req) (Some (getSelectedProvider cfg))))"

definition requestModel :: "ChatRequest \<Rightarrow> string" where
  "requestModel req = trim (or_empty (c_model req))"

definition requestUiOS :: "ChatRequest \<Rightarrow> string" where
  "requestUiOS req = trim (or_empty (or_str (or_str (c_maximoOS req) (c_maximoOs req)) (c_os req)))"

text \<open>Backend-query mode (\<open>mode === "maximo"\<close>).\<close>

definition maximoRoute ::
  "runtime \<Rightarrow> secrets \<Rightarrow> secrets \<Rightarrow> ChatRequest \<Rightarrow> world \<Rightarrow> (js_error + int \<times> json) \<times> world" where
  "maximoRoute rt cfg mergedSecrets req w =
     (let uiOS = requestUiOS req;
          q = trim (requestText req)
      in if startsWith q ''/'' then maximoReply rt mergedSecrets q None w
         else
           let lower = toLowerCase q;
               h = heuristics uiOS lower
           in if summarizeIntent lower then
                summarizeLast rt mergedSecrets (requestProvider cfg req) (requestModel req)
                  (requestTemperature req) (c_system req) w
              else maximoReply rt mergedSecrets (queryPath rt h) (Some (queryEcho h)) w)"

text \<open>The body of the handler's \<open>try\<close>: a reply, or what is thrown.\<close>

definition chatRoute ::
  "runtime \<Rightarrow> secrets \<Rightarrow> ChatRequest \<Rightarrow> world \<Rightarrow> (js_error + int \<times> json) \<times> world" where
  "chatRoute rt cfg req w =
     (let mergedSecrets = cfg ++ c_settings req
      in if requestMode req = ''maximo'' then maximoRoute rt cfg mergedSecrets req w
         else
           let out = chatCompletionWith rt
                 (chatArgs mergedSecrets (requestProvider cfg req) (requestModel req)
                    (requestTemperature req) (c_system req) (requestText req)) w
           in case fst out of
                Inl e \<Rightarrow> (Inl e, snd out)
              | Inr res \<Rightarrow> (Inr (200, JObj [(''reply'', cr_content res), (''raw'', cr_raw res)]), snd out))"

text \<open>\<open>app.post("/api/chat", ...)\<close>: the \<open>catch\<close> answers 400 with the error's message.\<close>

definition chatCall :: "ChatRequest \<Rightarrow> api_call" where
  "chatCall req = \<lparr>api_method = ''POST'', api_url = ''/api/chat'', api_body = c_raw req\<rparr>"

definition postChat :: "runtime \<Rightarrow> secrets \<Rightarrow> ChatRequest \<Rightarrow> world \<Rightarrow> reply \<times> world" where
  "postChat rt cfg req w =
     (let routed = chatRoute rt cfg req w
      in case fst routed of
           Inl e \<Rightarrow> res_json rt (chatCall req) 400 (JObj [(''error'', JStr (errorText e))]) (snd routed)
         | Inr (code, body) \<Rightarrow> res_json rt (chatCall req) code body (snd routed))"

section \<open>The server: POST /api/proxy\<close>

text \<open>\<open>obj[k] = v\<close> on an object kept as a list of entries.\<close>

fun assign :: "'k \<Rightarrow> 'v \<Rightarrow> ('k \<times> 'v) list \<Rightarrow> ('k \<times> 'v) list" where
  "assign k v [] = [(k, v)]"
| "assign k v ((k', v') # kvs) = (if k' = k then (k, v) # kvs else (k', v') # assign k v kvs)"

text \<open>\<open>headers[k] = headers[k] || d\<close>.\<close>

definition defaultHeader :: "string \<Rightarrow> string \<Rightarrow> (string \<times> string) list \<Rightarrow> (string \<times> string) list" where
  "defaultHeader k d headers = assign k (or_empty (or_str (map_of headers k) (Some d))) headers"

text \<open>\<open>setTraceState\<close> with a patch of auxiliary keys.\<close>

definition setTraceState :: "(string \<times> json) list \<Rightarrow> TraceStore \<Rightarrow> TraceStore" where
  "setTraceState patch st = st\<lparr>aux := fold (\<lambda>(k, v). assign k v) patch (aux st)\<rparr>"

text \<open>
  The request body: the fields the handler reads (\<open>headers\<close> as the entries of the
  object, empty when absent) and the body as parsed (\<open>p_raw\<close>).
\<close>

record ProxyRequest =
  p_raw :: "json option"
  p_kind :: "string option"
  p_method :: "string option"
  p_url :: "string option"
  p_headers :: "(string \<times> json) list"
  p_body :: "json option"

text \<open>The entries of \<open>headersIn\<close> whose value is a string.\<close>

definition stringEntries :: "(string \<times> json) list \<Rightarrow> (string \<times> string) list" where
  "stringEntries entries =
     fold (\<lambda>(k, v) headers. case v of JStr t \<Rightarrow> assign k t headers | _ \<Rightarrow> headers) entries []"

text \<open>\<open>if (url.startsWith("/")) url = base.replace(/\/$/, "") + url\<close>.\<close>

definition resolveUrl :: "string \<Rightarrow> string \<Rightarrow> string" where
  "resolveUrl base url = (if startsWith url ''/'' then stripTrailingSlash base @ url else url)"

text \<open>
  The first part of the \<open>try\<close>: the URL and headers to use, by \<open>kind\<close>, or what is
  thrown.
\<close>

definition proxyTarget ::
  "secrets \<Rightarrow> string \<Rightarrow> string \<Rightarrow> (string \<times> string) list \<Rightarrow> js_error + string \<times> (string \<times> string) list" where
  "proxyTarget cfg kind urlIn headers0 =
     (if kind = ''maximo'' then
        (let base0 = or_empty (cfg ''maximoUrl'');
             apiKey = or_empty (cfg ''maximoApiKey'')
         in if base0 = [] then Inl (Error ''Maximo Manage URL is not configured.'')
            else if apiKey = [] then Inl (Error ''Maximo API key is not configured.'')
            else
              let base = normalizeBase base0;
                  url = resolveUrl base urlIn
              in if \<not> startsWith url base then
                   Inl (Error ''Maximo proxy URL must be relative or within the configured Maximo base URL.'')
                 else Inr (url,
                   assign ''apikey'' apiKey
                     (assign ''maxauth'' apiKey
                        (defaultHeader ''Content-Type'' ''application/json'' headers0))))
      else if kind = ''ai'' then
        (let apiKey = or_empty (cfg ''aiApiKey'')
         in if apiKey = [] then Inl (Error ''AI API key is not configured.'')
            else Inr (urlIn,
              defaultHeader ''Content-Type'' ''application/json''
                (defaultHeader ''Authorization'' (''Bearer '' @ apiKey) headers0)))
      else Inr (urlIn, headers0))"

text \<open>The second part: the request sent, the trace item and the reply.\<close>

definition proxyRequest ::
  "runtime \<Rightarrow> string \<Rightarrow> string \<Rightarrow> (string \<times> string) list \<Rightarrow> json option \<Rightarrow> http_request" where
  "proxyRequest rt url method headers bodyIn =
     \<lparr>rq_url = url, rq_method = method, rq_headers = headers,
      rq_body = (if nullish bodyIn JNull \<noteq> JNull \<and> method \<noteq> ''GET'' \<and> method \<noteq> ''HEAD''
                 then (case bodyIn of Some (JStr b) \<Rightarrow> Some b
                       | Some v \<Rightarrow> Some (JSON_stringify rt v) | None \<Rightarrow> None)
                 else None)\<rparr>"

definition proxyData :: "runtime \<Rightarrow> http_response \<Rightarrow> json" where
  "proxyData rt resp = (case JSON_parse rt (rs_text resp) of Some d \<Rightarrow> d | None \<Rightarrow> JStr (rs_text resp))"

definition proxyTrace ::
  "runtime \<Rightarrow> string \<Rightarrow> http_request \<Rightarrow> json option \<Rightarrow> http_response \<Rightarrow> nat \<Rightarrow> TracePartial" where
  "proxyTrace rt kind req bodyIn resp k =
     (blank (if kind = ''maximo'' then Kmaximo else if kind = ''ai'' then Kai else Krest))
        \<lparr>t_label := Some ''Proxy call'', t_method := Some (rq_method req), t_url := Some (rq_url req),
         t_status := Some (rs_status resp),
         t_durationMs := Some (elapsed rt k),
         t_request := Some (JObj
           ((''headers'', JObj (map (\<lambda>(k, v). (k, JStr v)) (rq_headers req)))
            # (case bodyIn of Some v \<Rightarrow> [(''body'', v)] | None \<Rightarrow> []))),
         t_response := Some (proxyData rt resp)\<rparr>"

definition proxyResult :: "runtime \<Rightarrow> http_response \<Rightarrow> json" where
  "proxyResult rt resp = JObj [(''status'', JNum (of_int (rs_status resp))), (''data'', proxyData rt resp)]"

definition proxyRoute ::
  "runtime \<Rightarrow> secrets \<Rightarrow> ProxyRequest \<Rightarrow> world \<Rightarrow> (js_error + int \<times> json) \<times> world" where
  "proxyRoute rt cfg payload w =
     (let kind = or_empty (or_str (p_kind payload) (Some ''rest''));
          method = toUpperCase (or_empty (or_str (p_method payload) (Some ''GET'')));
          urlIn = or_empty (p_url payload)
      in case proxyTarget cfg kind urlIn (stringEntries (p_headers payload)) of
           Inl e \<Rightarrow> (Inl e, w)
         | Inr (url, headers) \<Rightarrow>
             let req = proxyRequest rt url method headers (p_body payload);
                 fetched = do_fetch rt req w
             in case fst fetched of
                  Inl e \<Rightarrow> (Inl e, snd fetched)
                | Inr resp \<Rightarrow>
                    let traced = record_trace rt
                          (proxyTrace rt kind req (p_body payload) resp (clock (snd fetched))) (snd fetched)
                    in case fst traced of
                         Some e \<Rightarrow> (Inl e, snd traced)
                       | None \<Rightarrow>
                           (Inr (rs_status resp, proxyResult rt resp),
                            (snd traced)\<lparr>store := setTraceState
                               [(''restBuilderDraft'', nullish (p_raw payload) (JObj [])),
                                (''restBuilderLastResponse'', proxyResult rt resp),
                                (''lastResponse'', proxyResult rt resp)]
                               (store (snd traced))\<rparr>))"

definition postProxy :: "runtime \<Rightarrow> secrets \<Rightarrow> ProxyRequest \<Rightarrow> world \<Rightarrow> reply \<times> world" where
  "postProxy rt cfg payload w =
     (let call = \<lparr>api_method = ''POST'', api_url = ''/api/proxy'', api_body = p_raw payload\<rparr>;
          routed = proxyRoute rt cfg payload w
      in case fst routed of
           Inl e \<Rightarrow> res_json rt call 400 (JObj [(''error'', JStr (errorText e))]) (snd routed)
         | Inr (code, body) \<Rightarrow> res_json rt call code body (snd routed))"

section \<open>A runtime for concrete runs\<close>

text \<open>
  The upstream answers every request with status 200 and the body \<open>[]\<close>; the other
  functions are simple stand-ins.
\<close>

definition sampleRuntime :: runtime where
  "sampleRuntime =
     \<lparr>fetch = (\<lambda>req. Inr \<lparr>rs_status = 200, rs_text = ''[]''\<rparr>),
      JSON_parse = (\<lambda>t. if t = ''[]'' then Some (JArr []) else None),
      JSON_stringify = (\<lambda>j. case j of JStr t \<Rightarrow> t | JArr [] \<Rightarrow> ''[]'' | _ \<Rightarrow> ''{}''),
      JSON_stringify_pretty = (\<lambda>j. case j of JStr t \<Rightarrow> t | JArr [] \<Rightarrow> ''[]'' | _ \<Rightarrow> ''{}''),
      Number_toString = (\<lambda>n. ''0''),
      Object_toString = ''function Object() { [native code] }'',
      encodeURIComponent = (\<lambda>t. t),
      searchParams = (\<lambda>kvs. joinWith ''&'' (map (\<lambda>(k, v). k @ ''='' @ v) kvs)),
      stamp = (\<lambda>k. (''id'' @ decimal k, ''ts'' @ decimal k)),
      elapsed = (\<lambda>k. 1)\<rparr>"

text \<open>
  Sample requests: AI mode for the provider \<open>openai\<close>, and backend-query mode with a
  given text; neither carries settings.
\<close>

definition sampleAiRequest :: ChatRequest where
  "sampleAiRequest =
     \<lparr>c_raw = Some (JObj [(''mode'', JStr ''ai''), (''provider'', JStr ''openai''), (''text'', JStr ''hello'')]),
      c_mode = Some ''ai'', c_src = None, c_text = Some ''hello'', c_prompt = None, c_system = None,
      c_temperature = None, c_provider = Some ''openai'', c_model = None, c_settings = Map.empty,
      c_maximoOS = None, c_maximoOs = None, c_os = None\<rparr>"

definition sampleMaximoRequest :: "string \<Rightarrow> ChatRequest" where
  "sampleMaximoRequest t =
     \<lparr>c_raw = Some (JObj [(''mode'', JStr ''maximo''), (''text'', JStr t)]),
      c_mode = Some ''maximo'', c_src = None, c_text = Some t, c_prompt = None, c_system = None,
      c_temperature = None, c_provider = None, c_model = None, c_settings = Map.empty,
      c_maximoOS = None, c_maximoOs = None, c_os = None\<rparr>"

text \<open>A world whose trace store holds one \<open>maximo\<close> item, with the response \<open>rows\<close>.\<close>

definition sampleTracedWorld :: world where
  "sampleTracedWorld =
     initialWorld\<lparr>store := snd (addTrace (''id0'', ''t0'')
        ((blank Kmaximo)\<lparr>t_response := Some (JStr ''rows'')\<rparr>) initialStore)\<rparr>"

text \<open>A proxy request of kind \<open>maximo\<close> for a given URL, with no method, headers or body.\<close>

definition sampleProxyRequest :: "string \<Rightarrow> ProxyRequest" where
  "sampleProxyRequest url =
     \<lparr>p_raw = None, p_kind = Some ''maximo'', p_method = None, p_url = Some url,
      p_headers = [], p_body = None\<rparr>"



section \<open>Properties of the trace store\<close>

lemma take_append_take: "take m (xs @ take m ys) = take m (xs @ ys)"
  by (simp add: min_def)

lemma addTrace_enabled:
  assumes "enabled st" "0 \<le> maxItems st"
  shows "addTrace gen partial st = (None, st\<lparr>items := take (nat (maxItems st)) (makeItem gen partial # items st)\<rparr>)"
  using assms by (auto simp: addTrace_def Let_def)

lemma addTraces_general:
  assumes "enabled st" "0 \<le> maxItems st" "length (items st) \<le> nat (maxItems st)"
  shows "items (addTraces calls st) = take (nat (maxItems st)) (rev (builtItems calls) @ items st)
         \<and> enabled (addTraces calls st) \<and> maxItems (addTraces calls st) = maxItems st
         \<and> \<not> addTracesThrows calls st"
  using assms
proof (induction calls arbitrary: st)
  case Nil
  then show ?case by (simp add: builtItems_def)
next
  case (Cons c calls)
  obtain gen partial where c: "c = (gen, partial)" by (cases c)
  let ?st' = "st\<lparr>items := take (nat (maxItems st)) (makeItem gen partial # items st)\<rparr>"
  have step: "addTrace gen partial st = (None, ?st')"
    using Cons.prems by (simp add: addTrace_enabled)
  have "items (addTraces calls ?st') = take (nat (maxItems ?st')) (rev (builtItems calls) @ items ?st')
        \<and> enabled (addTraces calls ?st') \<and> maxItems (addTraces calls ?st') = maxItems ?st'
        \<and> \<not> addTracesThrows calls ?st'"
    using Cons.prems by (intro Cons.IH) simp_all
  then show ?case
    using step by (simp add: c builtItems_def take_append_take)
qed

text \<open>
  Claim C3. After N calls of \<open>addTrace\<close> on an enabled, empty store with
  \<open>maxItems = M \<ge> 0\<close>, the store holds \<open>min N M\<close> items, newest first: the items
  built by the last \<open>min N M\<close> calls, in reverse call order. The items of the first
  \<open>N - M\<close> calls are the ones dropped, and no call throws.
\<close>

theorem addTraces_newest_first_bounded:
  assumes "enabled st" "0 \<le> maxItems st" "items st = []"
  shows "items (addTraces calls st) = take (nat (maxItems st)) (rev (builtItems calls))
         \<and> length (items (addTraces calls st)) = min (length calls) (nat (maxItems st))
         \<and> items (addTraces calls st) = rev (drop (length calls - nat (maxItems st)) (builtItems calls))
         \<and> \<not> addTracesThrows calls st"
proof -
  have g: "items (addTraces calls st) = take (nat (maxItems st)) (rev (builtItems calls) @ items st)
           \<and> \<not> addTracesThrows calls st"
    using addTraces_general [of st calls] assms by simp
  then have i: "items (addTraces calls st) = take (nat (maxItems st)) (rev (builtItems calls))"
    using assms by simp
  have n: "length (builtItems calls) = length calls"
    by (simp add: builtItems_def)
  show ?thesis
    using g i n by (simp add: take_rev min.commute)
qed

theorem addTraces_newest_first_bounded_witness:
  "enabled (initialStore\<lparr>maxItems := 2\<rparr>) \<and> 0 \<le> maxItems (initialStore\<lparr>maxItems := 2\<rparr>)
   \<and> items (initialStore\<lparr>maxItems := 2\<rparr>) = []
   \<and> map t_id (items (addTraces
        [((''id1'', ''t1''), blank Kai), ((''id2'', ''t2''), blank Krest), ((''id3'', ''t3''), blank Kmaximo)]
        (initialStore\<lparr>maxItems := 2\<rparr>))) = [''id3'', ''id2'']
   \<and> length (items (addTraces
        [((''id1'', ''t1''), blank Kai), ((''id2'', ''t2''), blank Krest), ((''id3'', ''t3''), blank Kmaximo)]
        (initialStore\<lparr>maxItems := 2\<rparr>))) = 2"
  using addTraces_newest_first_bounded [of "initialStore\<lparr>maxItems := 2\<rparr>"
      "[((''id1'', ''t1''), blank Kai), ((''id2'', ''t2''), blank Krest), ((''id3'', ''t3''), blank Kmaximo)]"]
  by (simp add: initialStore_def builtItems_def makeItem_def blank_def)

text \<open>
  Claim C9, as amended. \<open>listTraces kind limit\<close> returns the first
  \<open>max 1 (min L maxItems)\<close> stored items of the given kind (of all items when no kind
  is given), newest first, where \<open>L\<close> is the limit (200 when none is given); it never
  returns more than that many. The lower bound 1 comes from \<open>Math.max(1, ...)\<close>.
\<close>

theorem listTraces_limit:
  "listTraces kind limit st =
     take (nat (max 1 (min (case limit of Some l \<Rightarrow> l | None \<Rightarrow> 200) (maxItems st))))
       (case kind of Some k \<Rightarrow> filter (\<lambda>i. t_kind i = k) (items st) | None \<Rightarrow> items st)
   \<and> int (length (listTraces kind limit st))
       \<le> max 1 (min (case limit of Some l \<Rightarrow> l | None \<Rightarrow> 200) (maxItems st))"
  by (simp add: listTraces_def slice0_def Let_def)

text \<open>
  Claim C9 as stated fails: with one stored item and limit 0 the result holds that item,
  so it is not empty and is longer than \<open>min 0 maxItems = 0\<close>.
\<close>

theorem listTraces_limit_zero_counterexample:
  "listTraces None (Some 0) (snd (addTrace (''id1'', ''t1'') (blank Krest) initialStore))
     = [makeItem (''id1'', ''t1'') (blank Krest)]
   \<and> \<not> int (length (listTraces None (Some 0) (snd (addTrace (''id1'', ''t1'') (blank Krest) initialStore))))
        \<le> min 0 (maxItems (snd (addTrace (''id1'', ''t1'') (blank Krest) initialStore)))"
  by (simp add: listTraces_def slice0_def addTrace_def initialStore_def Let_def)

text \<open>
  Claim C10 fails on the code: \<open>listModelsWithSecrets\<close> calls \<open>addTrace\<close> with
  \<open>provider\<close> and \<open>ok\<close> set, and the stored item carries neither.
\<close>

theorem addTrace_drops_provider_and_ok:
  "map (\<lambda>i. (t_kind i, t_provider i, t_ok i))
     (items (snd (addTrace (''id1'', ''t1'')
        ((blank Kmodels)\<lparr>t_provider := Some ''openai'', t_ok := Some False\<rparr>) initialStore)))
   = [(Kmodels, None, None)]"
  by (simp add: addTrace_def makeItem_def initialStore_def blank_def Let_def)

section \<open>Properties of the credential resolver\<close>

text \<open>
  Claim C1. For a supported provider name, the \<open>apiKey\<close> that \<open>resolveProviderAuth\<close>
  returns is the trimmed provider-specific key when that is not empty; otherwise it is the
  trimmed generic key \<open>aiApiKey\<close> exactly when the generic field \<open>aiProvider\<close>,
  lower-cased, equals the provider name (and that key is not empty), and otherwise there
  is no \<open>apiKey\<close>. The same holds for \<open>baseUrl\<close>, whose provider-specific value is
  \<open>_baseurl || _base\<close>. When \<open>aiProvider\<close> does not designate the provider, the result
  does not depend on the generic key and base URL at all.
\<close>

theorem resolveProviderAuth_precedence:
  assumes "provider \<in> set supportedProviders"
  shows "apiKey (resolveProviderAuth s provider) =
           (if trim (or_empty (s (provider @ ''_key''))) \<noteq> []
            then Some (trim (or_empty (s (provider @ ''_key''))))
            else if toLowerCase (or_empty (s ''aiProvider'')) = provider
                    \<and> trim (or_empty (s ''aiApiKey'')) \<noteq> []
            then Some (trim (or_empty (s ''aiApiKey''))) else None)
       \<and> baseUrl (resolveProviderAuth s provider) =
           (if trim (or_empty (or_str (s (provider @ ''_baseurl'')) (s (provider @ ''_base'')))) \<noteq> []
            then Some (trim (or_empty (or_str (s (provider @ ''_baseurl'')) (s (provider @ ''_base'')))))
            else if toLowerCase (or_empty (s ''aiProvider'')) = provider
                    \<and> trim (or_empty (s ''aiBaseUrl'')) \<noteq> []
            then Some (trim (or_empty (s ''aiBaseUrl''))) else None)
       \<and> (toLowerCase (or_empty (s ''aiProvider'')) \<noteq> provider \<longrightarrow>
            resolveProviderAuth (s(''aiApiKey'' := k, ''aiBaseUrl'' := b)) provider
              = resolveProviderAuth s provider)"
proof -
  from assms have names: "provider = ''openai'' \<or> provider = ''anthropic'' \<or> provider = ''gemini''
      \<or> provider = ''mistral'' \<or> provider = ''watsonx'' \<or> provider = ''deepseek''"
    by (simp add: supportedProviders_def)
  then show ?thesis
    by (elim disjE) (simp_all add: resolveProviderAuth_def providerEntry_def Let_def or_undefined_def)
qed

theorem resolveProviderAuth_precedence_witness:
  "''gemini'' \<in> set supportedProviders
   \<and> apiKey (resolveProviderAuth
        [''openai_key'' \<mapsto> '' X '', ''aiProvider'' \<mapsto> ''Mistral'', ''aiApiKey'' \<mapsto> ''Y'']
        ''gemini'') = None
   \<and> baseUrl (resolveProviderAuth
        [''openai_key'' \<mapsto> '' X '', ''aiProvider'' \<mapsto> ''Mistral'', ''aiApiKey'' \<mapsto> ''Y'']
        ''gemini'') = None
   \<and> resolveProviderAuth
        ([''openai_key'' \<mapsto> '' X '', ''aiProvider'' \<mapsto> ''Mistral'', ''aiApiKey'' \<mapsto> ''Y'']
           (''aiApiKey'' := Some ''Z'', ''aiBaseUrl'' := Some ''https://z''))
        ''gemini''
      = resolveProviderAuth
        [''openai_key'' \<mapsto> '' X '', ''aiProvider'' \<mapsto> ''Mistral'', ''aiApiKey'' \<mapsto> ''Y'']
        ''gemini''"
  using resolveProviderAuth_precedence
    [of "''gemini''"
        "[''openai_key'' \<mapsto> '' X '', ''aiProvider'' \<mapsto> ''Mistral'', ''aiApiKey'' \<mapsto> ''Y'']"
        "Some ''Z''" "Some ''https://z''"]
  by (simp add: supportedProviders_def toLowerCase_def lowerChar_def trim_def isSpace_def)

lemma resolveProviderAuth_examples:
  "apiKey (resolveProviderAuth
      [''openai_key'' \<mapsto> '' X '', ''aiProvider'' \<mapsto> ''Mistral'', ''aiApiKey'' \<mapsto> ''Y''] ''openai'')
     = Some ''X''
   \<and> apiKey (resolveProviderAuth
      [''openai_key'' \<mapsto> '' X '', ''aiProvider'' \<mapsto> ''Mistral'', ''aiApiKey'' \<mapsto> ''Y''] ''mistral'')
     = Some ''Y''
   \<and> apiKey (resolveProviderAuth
      [''aiProvider'' \<mapsto> ''other'', ''aiApiKey'' \<mapsto> ''Y''] ''openai'')
     = None"
  by (simp add: resolveProviderAuth_def providerEntry_def Let_def or_undefined_def
      toLowerCase_def lowerChar_def trim_def isSpace_def)

section \<open>Properties of the model-id filter\<close>

lemma set_uniq: "set (uniq xs) = set xs"
  by (simp add: uniq_def)

lemma distinct_uniq: "distinct (uniq xs)"
  by (simp add: uniq_def)

lemma uniq_first_occurrence: "uniq [a, b, a] = (if a = b then [a] else [a, b])"
  by (simp add: uniq_def)

lemma set_insertBy: "set (insertBy cmp x ys) = insert x (set ys)"
  by (induction ys) auto

lemma set_sortBy: "set (sortBy cmp xs) = set xs"
  by (induction xs) (simp_all add: set_insertBy)

lemma distinct_insertBy: "distinct (insertBy cmp x ys) = (x \<notin> set ys \<and> distinct ys)"
  by (induction ys) (auto simp: set_insertBy)

lemma distinct_sortBy: "distinct (sortBy cmp xs) = distinct xs"
  by (induction xs) (simp_all add: distinct_insertBy set_sortBy)

lemma sorted_insertBy:
  assumes total: "\<And>a b. cmp a b \<le> 0 \<or> cmp b a \<le> 0"
    and trans: "\<And>a b c. cmp a b \<le> 0 \<Longrightarrow> cmp b c \<le> 0 \<Longrightarrow> cmp a c \<le> 0"
    and "sorted_wrt (\<lambda>a b. cmp a b \<le> 0) ys"
  shows "sorted_wrt (\<lambda>a b. cmp a b \<le> 0) (insertBy cmp x ys)"
  using assms(3)
proof (induction ys)
  case Nil
  then show ?case by simp
next
  case (Cons y ys)
  show ?case
  proof (cases "cmp x y \<le> 0")
    case True
    have "cmp x z \<le> 0" if "z \<in> set ys" for z
      using that Cons.prems True trans [of x y z] by auto
    with True Cons.prems show ?thesis by simp
  next
    case False
    then have "cmp y x \<le> 0" using total [of x y] by simp
    with False Cons show ?thesis by (auto simp: set_insertBy)
  qed
qed

lemma sorted_sortBy:
  assumes "\<And>a b. cmp a b \<le> 0 \<or> cmp b a \<le> 0"
    and "\<And>a b c. cmp a b \<le> 0 \<Longrightarrow> cmp b c \<le> 0 \<Longrightarrow> cmp a c \<le> 0"
  shows "sorted_wrt (\<lambda>a b. cmp a b \<le> 0) (sortBy cmp xs)"
proof (induction xs)
  case Nil
  then show ?case by simp
next
  case (Cons x xs)
  then show ?case using sorted_insertBy [of cmp "sortBy cmp xs" x] assms by simp
qed

lemma numericCompare_le: "(numericCompare a b \<le> 0) = (numericKey None a \<le> numericKey None b)"
  by (auto simp: numericCompare_def)

lemma numericCompare_total: "numericCompare a b \<le> 0 \<or> numericCompare b a \<le> 0"
  unfolding numericCompare_le by (rule linear)

lemma numericCompare_trans:
  "numericCompare a b \<le> 0 \<Longrightarrow> numericCompare b c \<le> 0 \<Longrightarrow> numericCompare a c \<le> 0"
  unfolding numericCompare_le by (rule order_trans)

lemma preferred_examples:
  "preferredId ''gpt-4o'' \<and> preferredId ''gpt-4.1-mini'' \<and> \<not> preferredId ''text-davinci-003''"
  by (simp add: preferredId_def modernFamily_def legacyName_def toLowerCase_def lowerChar_def
      startsWith_def isDigit_def)

text \<open>
  Claim C6. For the provider \<open>openai\<close> and a comparator that is a total preorder,
  \<open>filterModelIds\<close> returns, without duplicates and sorted by the comparator, the
  non-empty ids that match the modern-family pattern and not the legacy pattern; if no id
  does, it returns all non-empty ids. For \<open>["gpt-4o", "text-davinci-003", "gpt-4.1-mini"]\<close>
  the result consists of \<open>gpt-4o\<close> and \<open>gpt-4.1-mini\<close>, so it excludes
  \<open>text-davinci-003\<close>, and it is sorted.
\<close>

theorem filterModelIds_openai:
  assumes total: "\<And>a b. cmp a b \<le> 0 \<or> cmp b a \<le> 0"
    and trans: "\<And>a b c. cmp a b \<le> 0 \<Longrightarrow> cmp b c \<le> 0 \<Longrightarrow> cmp a c \<le> 0"
  shows "sorted_wrt (\<lambda>a b. cmp a b \<le> 0) (filterModelIds cmp ''openai'' ids)
       \<and> distinct (filterModelIds cmp ''openai'' ids)
       \<and> set (filterModelIds cmp ''openai'' ids) =
           (if \<exists>i \<in> set ids. i \<noteq> [] \<and> modernFamily i \<and> \<not> legacyName i
            then {i \<in> set ids. i \<noteq> [] \<and> modernFamily i \<and> \<not> legacyName i}
            else {i \<in> set ids. i \<noteq> []})
       \<and> set (filterModelIds cmp ''openai'' [''gpt-4o'', ''text-davinci-003'', ''gpt-4.1-mini''])
           = {''gpt-4o'', ''gpt-4.1-mini''}
       \<and> ''text-davinci-003'' \<notin> set (filterModelIds cmp ''openai'' [''gpt-4o'', ''text-davinci-003'', ''gpt-4.1-mini''])"
proof -
  have sorted: "sorted_wrt (\<lambda>a b. cmp a b \<le> 0) (filterModelIds cmp ''openai'' xs)" for xs
    using sorted_sortBy [of cmp, OF total trans] by (simp add: filterModelIds_def Let_def)
  have dist: "distinct (filterModelIds cmp ''openai'' ids)"
    by (simp add: filterModelIds_def Let_def distinct_sortBy distinct_uniq)
  have pref: "(filter preferredId (uniq (filter (\<lambda>i. i \<noteq> []) xs)) \<noteq> [])
              = (\<exists>i \<in> set xs. i \<noteq> [] \<and> modernFamily i \<and> \<not> legacyName i)" for xs
    by (auto simp: filter_empty_conv set_uniq preferredId_def)
  have members: "set (filterModelIds cmp ''openai'' xs) =
           (if \<exists>i \<in> set xs. i \<noteq> [] \<and> modernFamily i \<and> \<not> legacyName i
            then {i \<in> set xs. i \<noteq> [] \<and> modernFamily i \<and> \<not> legacyName i}
            else {i \<in> set xs. i \<noteq> []})" for xs
    unfolding filterModelIds_def Let_def pref
    by (auto simp: set_sortBy set_uniq preferredId_def)
  have ex: "set (filterModelIds cmp ''openai'' [''gpt-4o'', ''text-davinci-003'', ''gpt-4.1-mini''])
            = {''gpt-4o'', ''gpt-4.1-mini''}"
    using preferred_examples
    by (auto simp: filterModelIds_def Let_def set_sortBy uniq_def)
  have "''text-davinci-003'' \<notin> {''gpt-4o'', ''gpt-4.1-mini''}"
    by simp
  with ex sorted dist members show ?thesis
    by simp
qed

theorem filterModelIds_openai_witness:
  "filterModelIds numericCompare ''openai'' [''gpt-4o'', ''text-davinci-003'', ''gpt-4.1-mini'']
     = [''gpt-4.1-mini'', ''gpt-4o'']
   \<and> sorted_wrt (\<lambda>a b. numericCompare a b \<le> 0)
       (filterModelIds numericCompare ''openai'' [''gpt-4o'', ''text-davinci-003'', ''gpt-4.1-mini''])
   \<and> ''text-davinci-003'' \<notin> set (filterModelIds numericCompare ''openai''
         [''gpt-4o'', ''text-davinci-003'', ''gpt-4.1-mini''])"
proof -
  have run: "filterModelIds numericCompare ''openai'' [''gpt-4o'', ''text-davinci-003'', ''gpt-4.1-mini'']
             = [''gpt-4.1-mini'', ''gpt-4o'']"
    using preferred_examples
    by (simp add: filterModelIds_def Let_def uniq_def numericCompare_def isDigit_def)
  note inst = filterModelIds_openai [where cmp = numericCompare
      and ids = "[''gpt-4o'', ''text-davinci-003'', ''gpt-4.1-mini'']",
      OF numericCompare_total numericCompare_trans]
  from inst have sorted: "sorted_wrt (\<lambda>a b. numericCompare a b \<le> 0)
       (filterModelIds numericCompare ''openai'' [''gpt-4o'', ''text-davinci-003'', ''gpt-4.1-mini''])"
    by (rule conjunct1)
  have "''text-davinci-003'' \<notin> set [''gpt-4.1-mini'', ''gpt-4o'']"
    by simp
  with run sorted show ?thesis
    by simp
qed

section \<open>Properties of the backend gateway\<close>

lemma lower_slash: "lowerChar CHR ''/'' = CHR ''/''"
  by (simp add: lowerChar_def)

lemma lowerChar_eq_slash: "lowerChar c = CHR ''/'' \<Longrightarrow> c = CHR ''/''"
  by (cases c) (auto simp: lowerChar_def of_bool_def split: if_splits)

lemma toLowerCase_simps:
  "toLowerCase [] = []" "toLowerCase (c # cs) = lowerChar c # toLowerCase cs"
  "toLowerCase (xs @ ys) = toLowerCase xs @ toLowerCase ys"
  "length (toLowerCase xs) = length xs"
  by (simp_all add: toLowerCase_def)

lemma startsWith_Cons: "startsWith (c # cs) (p # ps) = (c = p \<and> startsWith cs ps)"
  by (auto simp: startsWith_def)

lemma startsWith_Nil: "startsWith s [] = True" "startsWith [] (p # ps) = False"
  by (auto simp: startsWith_def)

lemma apiSuffixAt_slash: "apiSuffixAt t \<Longrightarrow> \<exists>t'. t = CHR ''/'' # t'"
  by (cases t) (auto simp: apiSuffixAt_def startsWith_Cons startsWith_Nil toLowerCase_simps
      dest: lowerChar_eq_slash)

lemma apiSuffixAt_keyword:
  assumes "toLowerCase kw = ''oslc'' \<or> toLowerCase kw = ''api''" "subPath sub"
  shows "apiSuffixAt (CHR ''/'' # kw @ sub)"
proof -
  have len: "length kw = length (toLowerCase kw)"
    by (simp add: toLowerCase_simps)
  from assms(1) show ?thesis
  proof
    assume k: "toLowerCase kw = ''oslc''"
    then have "length kw = 4" using len by simp
    then show ?thesis
      using k assms(2) by (simp add: apiSuffixAt_def toLowerCase_simps lower_slash startsWith_def)
  next
    assume k: "toLowerCase kw = ''api''"
    then have "length kw = 3" using len by simp
    then show ?thesis
      using k assms(2) by (simp add: apiSuffixAt_def toLowerCase_simps lower_slash startsWith_def)
  qed
qed

lemma normalizeBase_example:
  "normalizeBase ''https://h.example/maximo/API/os/'' = ''https://h.example/maximo''"
  by (simp add: normalizeBase_def stripTrailingSlash_def apiSuffixAt_def startsWith_def
      toLowerCase_def lowerChar_def subPath_def isLineTerminator_def)

lemma startsWith_slash: "startsWith p ''/'' \<Longrightarrow> p = CHR ''/'' # tl p"
  by (cases p) (auto simp: startsWith_def)

lemma sent_record_trace: "sent (snd (record_trace rt partial w)) = sent w"
  by (simp add: record_trace_def Let_def)

lemma do_fetch_simps:
  "fst (do_fetch rt req w) = fetch rt req"
  "sent (snd (do_fetch rt req w)) = sent w @ [req]"
  by (simp_all add: do_fetch_def)

lemma maximoUrl_one_slash:
  "maximoUrl base path = base @ ''/'' @ (if startsWith path ''/'' then tl path else path)"
  using startsWith_slash [of path] by (auto simp: maximoUrl_def)

lemma callMaximoWith_sent:
  assumes b: "or_empty (or_str (secrets ''maximoUrl'') (secrets ''maximo_url'')) \<noteq> []"
    and k: "or_empty (or_str (secrets ''maximoApiKey'') (secrets ''maximo_apikey'')) \<noteq> []"
  shows "sent (snd (callMaximoWith rt secrets path method body w)) = sent w @
          [maximoRequest rt
             (maximoUrl (normalizeBase (or_empty (or_str (secrets ''maximoUrl'') (secrets ''maximo_url'')))) path)
             (or_empty (or_str (secrets ''maximoApiKey'') (secrets ''maximo_apikey''))) method body]"
    (is "_ = sent w @ [?req]")
proof (cases "fetch rt ?req")
  case (Inl e)
  then show ?thesis
    using b k by (simp add: callMaximoWith_def Let_def do_fetch_simps)
next
  case (Inr resp)
  then show ?thesis
    using b k by (simp add: callMaximoWith_def Let_def do_fetch_simps sent_record_trace split: option.split)
qed

lemma startsWith_append: "startsWith xs p \<Longrightarrow> startsWith (xs @ ys) p"
proof -
  assume a: "startsWith xs p"
  then have "length p \<le> length xs"
    by (metis startsWith_def length_take min.cobounded2 min.commute)
  with a show ?thesis by (simp add: startsWith_def)
qed

lemma startsWith_length: "startsWith xs p \<Longrightarrow> length p \<le> length xs"
  by (metis startsWith_def length_take min.cobounded2 min.commute)

lemma lineTerminator_lower: "isLineTerminator c \<Longrightarrow> lowerChar c = c"
  by (auto simp: isLineTerminator_def lowerChar_def)

lemma keyword_no_terminator:
  assumes "startsWith (toLowerCase t) kw" "list_all (\<lambda>c. \<not> isLineTerminator c) kw"
  shows "list_all (\<lambda>c. \<not> isLineTerminator c) (take (length kw) t)"
proof -
  have eq: "map lowerChar (take (length kw) t) = kw"
    using assms(1) by (simp add: startsWith_def toLowerCase_def take_map)
  have "\<not> isLineTerminator c" if "c \<in> set (take (length kw) t)" for c
  proof
    assume lt: "isLineTerminator c"
    then have "c \<in> set (map lowerChar (take (length kw) t))"
      using that lineTerminator_lower [OF lt] by (metis image_eqI set_map)
    then show False
      using assms(2) lt by (simp add: eq list_all_iff)
  qed
  then show ?thesis by (simp add: list_all_iff)
qed

lemma subPath_no_terminator: "subPath r \<Longrightarrow> list_all (\<lambda>c. \<not> isLineTerminator c) r"
  by (auto simp: subPath_def)

lemma apiSuffixAt_no_terminator:
  assumes "apiSuffixAt t"
  shows "list_all (\<lambda>c. \<not> isLineTerminator c) t"
proof -
  from assms consider "startsWith (toLowerCase t) ''/oslc''" "subPath (drop 5 t)"
    | "startsWith (toLowerCase t) ''/api''" "subPath (drop 4 t)"
    by (auto simp: apiSuffixAt_def)
  then show ?thesis
  proof cases
    case 1
    have n: "length ''/oslc'' = (5::nat)"
      by simp
    have "list_all (\<lambda>c. \<not> isLineTerminator c) (take (length ''/oslc'') t)"
      by (rule keyword_no_terminator [OF 1(1)]) (simp add: isLineTerminator_def)
    then have "list_all (\<lambda>c. \<not> isLineTerminator c) (take 5 t)"
      unfolding n .
    moreover have "list_all (\<lambda>c. \<not> isLineTerminator c) (drop 5 t)"
      using 1(2) by (rule subPath_no_terminator)
    ultimately have "list_all (\<lambda>c. \<not> isLineTerminator c) (take 5 t @ drop 5 t)"
      by (simp only: list_all_append)
    then show ?thesis by simp
  next
    case 2
    have n: "length ''/api'' = (4::nat)"
      by simp
    have "list_all (\<lambda>c. \<not> isLineTerminator c) (take (length ''/api'') t)"
      by (rule keyword_no_terminator [OF 2(1)]) (simp add: isLineTerminator_def)
    then have "list_all (\<lambda>c. \<not> isLineTerminator c) (take 4 t)"
      unfolding n .
    moreover have "list_all (\<lambda>c. \<not> isLineTerminator c) (drop 4 t)"
      using 2(2) by (rule subPath_no_terminator)
    ultimately have "list_all (\<lambda>c. \<not> isLineTerminator c) (take 4 t @ drop 4 t)"
      by (simp only: list_all_append)
    then show ?thesis by simp
  qed
qed

lemma subPath_append:
  assumes "subPath u" "apiSuffixAt rest"
  shows "subPath (u @ rest)"
proof -
  obtain t' where rest: "rest = CHR ''/'' # t'"
    using assms(2) apiSuffixAt_slash by blast
  have nt: "list_all (\<lambda>c. \<not> isLineTerminator c) rest"
    using assms(2) by (rule apiSuffixAt_no_terminator)
  show ?thesis
  proof (cases u)
    case Nil
    then show ?thesis using rest nt by (simp add: subPath_def)
  next
    case (Cons a u')
    then show ?thesis using assms(1) nt by (auto simp: subPath_def)
  qed
qed

lemma apiSuffixAt_extend:
  assumes "apiSuffixAt u" "apiSuffixAt rest"
  shows "apiSuffixAt (u @ rest)"
proof -
  from assms(1) consider "startsWith (toLowerCase u) ''/oslc''" "subPath (drop 5 u)"
    | "startsWith (toLowerCase u) ''/api''" "subPath (drop 4 u)"
    by (auto simp: apiSuffixAt_def)
  then show ?thesis
  proof cases
    case 1
    have len: "5 \<le> length u"
      using startsWith_length [OF 1(1)] by (simp add: toLowerCase_simps)
    have "startsWith (toLowerCase (u @ rest)) ''/oslc''"
      using startsWith_append [OF 1(1)] by (simp add: toLowerCase_simps)
    moreover have "subPath (drop 5 (u @ rest))"
      using subPath_append [OF 1(2) assms(2)] len by simp
    ultimately show ?thesis by (simp add: apiSuffixAt_def)
  next
    case 2
    have len: "4 \<le> length u"
      using startsWith_length [OF 2(1)] by (simp add: toLowerCase_simps)
    have "startsWith (toLowerCase (u @ rest)) ''/api''"
      using startsWith_append [OF 2(1)] by (simp add: toLowerCase_simps)
    moreover have "subPath (drop 4 (u @ rest))"
      using subPath_append [OF 2(2) assms(2)] len by simp
    ultimately show ?thesis by (simp add: apiSuffixAt_def)
  qed
qed

lemma stripApiSuffix_split:
  "stripApiSuffix s = s \<or> (\<exists>rest. s = stripApiSuffix s @ rest \<and> apiSuffixAt rest)"
proof (induction s)
  case Nil
  then show ?case by simp
next
  case (Cons c cs)
  show ?case
  proof (cases "apiSuffixAt (c # cs)")
    case True
    then show ?thesis by simp
  next
    case False
    with Cons show ?thesis by auto
  qed
qed

lemma stripApiSuffix_idem: "stripApiSuffix (stripApiSuffix s) = stripApiSuffix s"
proof (induction s)
  case Nil
  then show ?case by simp
next
  case (Cons c cs)
  show ?case
  proof (cases "apiSuffixAt (c # cs)")
    case True
    then show ?thesis by simp
  next
    case False
    have "\<not> apiSuffixAt (c # stripApiSuffix cs)"
    proof
      assume m: "apiSuffixAt (c # stripApiSuffix cs)"
      from stripApiSuffix_split [of cs] show False
      proof
        assume "stripApiSuffix cs = cs"
        with m False show False by simp
      next
        assume "\<exists>rest. cs = stripApiSuffix cs @ rest \<and> apiSuffixAt rest"
        then obtain rest where cs: "cs = stripApiSuffix cs @ rest" and r: "apiSuffixAt rest"
          by blast
        have "apiSuffixAt ((c # stripApiSuffix cs) @ rest)"
          using m r by (rule apiSuffixAt_extend)
        with cs False show False by simp
      qed
    qed
    with False Cons show ?thesis by simp
  qed
qed

lemma normalizeBase_nothing_left: "stripApiSuffix (normalizeBase b) = normalizeBase b"
  by (simp add: normalizeBase_def stripApiSuffix_idem)

lemma apiSuffixAt_shape:
  "apiSuffixAt t
   = (\<exists>kw sub. t = ''/'' @ kw @ sub \<and> (toLowerCase kw = ''oslc'' \<or> toLowerCase kw = ''api'')
        \<and> (sub = [] \<or> (hd sub = CHR ''/'' \<and> list_all (\<lambda>c. c \<noteq> CHR 0x0A \<and> c \<noteq> CHR 0x0D) sub)))"
proof
  assume m: "apiSuffixAt t"
  then obtain t' where t: "t = CHR ''/'' # t'"
    using apiSuffixAt_slash by blast
  from m consider "startsWith (toLowerCase t) ''/oslc''" "subPath (drop 5 t)"
    | "startsWith (toLowerCase t) ''/api''" "subPath (drop 4 t)"
    by (auto simp: apiSuffixAt_def)
  then show "\<exists>kw sub. t = ''/'' @ kw @ sub \<and> (toLowerCase kw = ''oslc'' \<or> toLowerCase kw = ''api'')
        \<and> (sub = [] \<or> (hd sub = CHR ''/'' \<and> list_all (\<lambda>c. c \<noteq> CHR 0x0A \<and> c \<noteq> CHR 0x0D) sub))"
  proof cases
    case 1
    have k: "toLowerCase (take 4 t') = ''oslc''"
      using 1(1) by (simp add: t startsWith_def toLowerCase_def take_map eval_nat_numeral)
    have e: "t = ''/'' @ take 4 t' @ drop 4 t'"
      by (simp add: t)
    have s: "drop 4 t' = [] \<or> (hd (drop 4 t') = CHR ''/''
               \<and> list_all (\<lambda>c. c \<noteq> CHR 0x0A \<and> c \<noteq> CHR 0x0D) (drop 4 t'))"
      using 1(2) by (simp add: t subPath_def isLineTerminator_def)
    show ?thesis
      by (rule exI [of _ "take 4 t'"], rule exI [of _ "drop 4 t'"]) (use k e s in blast)
  next
    case 2
    have k: "toLowerCase (take 3 t') = ''api''"
      using 2(1) by (simp add: t startsWith_def toLowerCase_def take_map eval_nat_numeral)
    have e: "t = ''/'' @ take 3 t' @ drop 3 t'"
      by (simp add: t)
    have s: "drop 3 t' = [] \<or> (hd (drop 3 t') = CHR ''/''
               \<and> list_all (\<lambda>c. c \<noteq> CHR 0x0A \<and> c \<noteq> CHR 0x0D) (drop 3 t'))"
      using 2(2) by (simp add: t subPath_def isLineTerminator_def)
    show ?thesis
      by (rule exI [of _ "take 3 t'"], rule exI [of _ "drop 3 t'"]) (use k e s in blast)
  qed
next
  assume "\<exists>kw sub. t = ''/'' @ kw @ sub \<and> (toLowerCase kw = ''oslc'' \<or> toLowerCase kw = ''api'')
        \<and> (sub = [] \<or> (hd sub = CHR ''/'' \<and> list_all (\<lambda>c. c \<noteq> CHR 0x0A \<and> c \<noteq> CHR 0x0D) sub))"
  then obtain kw sub where t: "t = ''/'' @ kw @ sub"
    and kw: "toLowerCase kw = ''oslc'' \<or> toLowerCase kw = ''api''"
    and sub: "sub = [] \<or> (hd sub = CHR ''/'' \<and> list_all (\<lambda>c. c \<noteq> CHR 0x0A \<and> c \<noteq> CHR 0x0D) sub)"
    by blast
  have "subPath sub"
    using sub by (simp add: subPath_def isLineTerminator_def)
  with kw show "apiSuffixAt t"
    unfolding t using apiSuffixAt_keyword by simp
qed

lemma stripApiSuffix_leftmost:
  assumes "apiSuffixAt t" "\<forall>u v. r = u @ v \<and> v \<noteq> [] \<longrightarrow> \<not> apiSuffixAt (v @ t)"
  shows "stripApiSuffix (r @ t) = r"
  using assms
proof (induction r)
  case Nil
  then show ?case using apiSuffixAt_slash [of t] by auto
next
  case (Cons c r)
  have "\<not> apiSuffixAt ((c # r) @ t)"
    using Cons.prems(2) by blast
  moreover have "\<forall>u v. r = u @ v \<and> v \<noteq> [] \<longrightarrow> \<not> apiSuffixAt (v @ t)"
  proof (intro allI impI)
    fix u v
    assume "r = u @ v \<and> v \<noteq> []"
    then have "c # r = (c # u) @ v \<and> v \<noteq> []" by simp
    then show "\<not> apiSuffixAt (v @ t)"
      using Cons.prems(2) by blast
  qed
  ultimately show ?case
    using Cons.IH Cons.prems(1) by simp
qed

lemma stripApiSuffix_unmatched:
  assumes "\<forall>u v. s = u @ v \<longrightarrow> \<not> apiSuffixAt v"
  shows "stripApiSuffix s = s"
  using assms
proof (induction s)
  case Nil
  then show ?case by simp
next
  case (Cons c s)
  have "\<not> apiSuffixAt (c # s)"
    using Cons.prems by (metis append_Nil)
  moreover have "\<forall>u v. s = u @ v \<longrightarrow> \<not> apiSuffixAt v"
  proof (intro allI impI)
    fix u v
    assume "s = u @ v"
    then have "c # s = (c # u) @ v" by simp
    then show "\<not> apiSuffixAt v"
      using Cons.prems by blast
  qed
  ultimately show ?case
    using Cons.IH by simp
qed

lemma splits_Nil: "(\<forall>u v. [] = u @ v \<and> v \<noteq> [] \<longrightarrow> P v) = True"
  by simp

lemma splits_Cons:
  "(\<forall>u v. c # r = u @ v \<and> v \<noteq> [] \<longrightarrow> P v) = (P (c # r) \<and> (\<forall>u v. r = u @ v \<and> v \<noteq> [] \<longrightarrow> P v))"
  by (auto simp: Cons_eq_append_conv)

lemma all_splits_Nil: "(\<forall>u v. [] = u @ v \<longrightarrow> P v) = P []"
  by simp

lemma all_splits_Cons:
  "(\<forall>u v. c # r = u @ v \<longrightarrow> P v) = (P (c # r) \<and> (\<forall>u v. r = u @ v \<longrightarrow> P v))"
  by (auto simp: Cons_eq_append_conv)

lemma stripTrailingSlash_cases:
  "stripTrailingSlash (s @ ''/'') = s"
  "s = [] \<or> last s \<noteq> CHR ''/'' \<Longrightarrow> stripTrailingSlash s = s"
  by (auto simp: stripTrailingSlash_def)

lemma maximoUrl_single_slash:
  assumes "\<not> startsWith path ''//''"
  shows "\<not> startsWith (if startsWith path ''/'' then tl path else path) ''/''"
  using assms by (cases path; cases "tl path") (auto simp: startsWith_def)

lemma callMaximoWith_sent_url:
  assumes "or_empty (or_str (secrets ''maximoUrl'') (secrets ''maximo_url'')) \<noteq> []"
    "or_empty (or_str (secrets ''maximoApiKey'') (secrets ''maximo_apikey'')) \<noteq> []"
  shows "map rq_url (sent (snd (callMaximoWith rt secrets path method body initialWorld)))
         = [maximoUrl (normalizeBase (or_empty (or_str (secrets ''maximoUrl'') (secrets ''maximo_url'')))) path]"
  using callMaximoWith_sent [OF assms, where w = initialWorld]
  by (simp add: maximoRequest_def initialWorld_def)

lemma normalizeBase_oslc_example: "normalizeBase ''https://h.example/maximo/oslc/'' = ''https://h.example/maximo''"
  by (simp add: normalizeBase_def stripTrailingSlash_def apiSuffixAt_def startsWith_def
      toLowerCase_def lowerChar_def subPath_def isLineTerminator_def)

lemma normalizeBase_examples:
  "normalizeBase ''https://api.example.com/maximo/oslc/os'' = ''https://api.example.com/maximo''"
  "normalizeBase ''https://h.example/apix/maximo/'' = ''https://h.example/apix/maximo''"
  "normalizeBase ''https://h.example/maximo//'' = ''https://h.example/maximo/''"
  "normalizeBase ''https://h.example/maximo'' = ''https://h.example/maximo''"
  by (simp_all add: normalizeBase_def stripTrailingSlash_def apiSuffixAt_def startsWith_def
      toLowerCase_def lowerChar_def subPath_def isLineTerminator_def)

text \<open>
  Claim C8, as amended. \<open>callMaximoWith\<close> raises the configuration error for a missing
  base URL, and for a missing API key, and leaves the world as it was: no request is sent
  and no trace item recorded. Otherwise it sends one request, with both API-key headers,
  to the normalized base followed by the path, with a slash put between them exactly when
  the path does not begin with one. So there is exactly one separating slash whenever the
  normalized base does not end in a slash and the path does not begin with two. The
  normalized base is the configured one with one trailing slash removed and then the
  first \<open>/oslc\<close> or \<open>/api\<close> path segment, in any case, removed together with all that
  follows it. Such a segment is a slash, the keyword, and then the end of the string or a
  slash and further characters on the same line: \<open>r @ t\<close> becomes \<open>r\<close> when \<open>t\<close> is such a
  segment and none starts inside \<open>r\<close>, and a string in which none starts is left as it is.
  A host name such as \<open>api.example.com\<close> or a path segment \<open>apix\<close> is not one. No such
  segment is left in the normalized base: stripping again changes nothing.
\<close>

theorem callMaximoWith_contract:
  "(or_empty (or_str (secrets ''maximoUrl'') (secrets ''maximo_url'')) = [] \<longrightarrow>
      callMaximoWith rt secrets path method body w
        = (Inl (Error ''Maximo Manage URL is not configured.''), w))
   \<and> (or_empty (or_str (secrets ''maximoUrl'') (secrets ''maximo_url'')) \<noteq> []
        \<and> or_empty (or_str (secrets ''maximoApiKey'') (secrets ''maximo_apikey'')) = [] \<longrightarrow>
      callMaximoWith rt secrets path method body w
        = (Inl (Error ''Maximo API key is not configured.''), w))
   \<and> (or_empty (or_str (secrets ''maximoUrl'') (secrets ''maximo_url'')) \<noteq> []
        \<and> or_empty (or_str (secrets ''maximoApiKey'') (secrets ''maximo_apikey'')) \<noteq> [] \<longrightarrow>
      (\<exists>req. sent (snd (callMaximoWith rt secrets path method body w)) = sent w @ [req]
         \<and> rq_url req
             = maximoUrl (normalizeBase (or_empty (or_str (secrets ''maximoUrl'') (secrets ''maximo_url'')))) path
         \<and> rq_method req = method
         \<and> map_of (rq_headers req) ''maxauth''
              = Some (or_empty (or_str (secrets ''maximoApiKey'') (secrets ''maximo_apikey'')))
         \<and> map_of (rq_headers req) ''apikey''
              = Some (or_empty (or_str (secrets ''maximoApiKey'') (secrets ''maximo_apikey'')))))
   \<and> maximoUrl nb path = nb @ (if startsWith path ''/'' then path else ''/'' @ path)
   \<and> ((nb = [] \<or> last nb \<noteq> CHR ''/'') \<and> \<not> startsWith path ''//'' \<longrightarrow>
        maximoUrl nb path = nb @ ''/'' @ (if startsWith path ''/'' then tl path else path)
        \<and> \<not> startsWith (if startsWith path ''/'' then tl path else path) ''/'')
   \<and> normalizeBase b = stripApiSuffix (stripTrailingSlash b)
   \<and> stripTrailingSlash (s @ ''/'') = s
   \<and> (s = [] \<or> last s \<noteq> CHR ''/'' \<longrightarrow> stripTrailingSlash s = s)
   \<and> apiSuffixAt t
       = (\<exists>kw sub. t = ''/'' @ kw @ sub \<and> (toLowerCase kw = ''oslc'' \<or> toLowerCase kw = ''api'')
            \<and> (sub = [] \<or> (hd sub = CHR ''/'' \<and> list_all (\<lambda>c. c \<noteq> CHR 0x0A \<and> c \<noteq> CHR 0x0D) sub)))
   \<and> (apiSuffixAt t \<and> (\<forall>u v. r = u @ v \<and> v \<noteq> [] \<longrightarrow> \<not> apiSuffixAt (v @ t)) \<longrightarrow>
        stripApiSuffix (r @ t) = r)
   \<and> ((\<forall>u v. s = u @ v \<longrightarrow> \<not> apiSuffixAt v) \<longrightarrow> stripApiSuffix s = s)
   \<and> normalizeBase ''https://api.example.com/maximo/oslc/os'' = ''https://api.example.com/maximo''
   \<and> normalizeBase ''https://h.example/apix/maximo/'' = ''https://h.example/apix/maximo''
   \<and> stripApiSuffix (normalizeBase b) = normalizeBase b"
proof (intro conjI impI)
  assume "or_empty (or_str (secrets ''maximoUrl'') (secrets ''maximo_url'')) = []"
  then show "callMaximoWith rt secrets path method body w
        = (Inl (Error ''Maximo Manage URL is not configured.''), w)"
    by (simp add: callMaximoWith_def Let_def)
next
  assume "or_empty (or_str (secrets ''maximoUrl'') (secrets ''maximo_url'')) \<noteq> []
        \<and> or_empty (or_str (secrets ''maximoApiKey'') (secrets ''maximo_apikey'')) = []"
  then show "callMaximoWith rt secrets path method body w
        = (Inl (Error ''Maximo API key is not configured.''), w)"
    by (simp add: callMaximoWith_def Let_def)
next
  assume a: "or_empty (or_str (secrets ''maximoUrl'') (secrets ''maximo_url'')) \<noteq> []
        \<and> or_empty (or_str (secrets ''maximoApiKey'') (secrets ''maximo_apikey'')) \<noteq> []"
  let ?req = "maximoRequest rt
             (maximoUrl (normalizeBase (or_empty (or_str (secrets ''maximoUrl'') (secrets ''maximo_url'')))) path)
             (or_empty (or_str (secrets ''maximoApiKey'') (secrets ''maximo_apikey''))) method body"
  have "sent (snd (callMaximoWith rt secrets path method body w)) = sent w @ [?req]"
    using a callMaximoWith_sent by blast
  moreover have "rq_url ?req
      = maximoUrl (normalizeBase (or_empty (or_str (secrets ''maximoUrl'') (secrets ''maximo_url'')))) path"
    by (simp add: maximoRequest_def)
  moreover have "rq_method ?req = method"
    by (simp add: maximoRequest_def)
  moreover have "map_of (rq_headers ?req) ''maxauth''
              = Some (or_empty (or_str (secrets ''maximoApiKey'') (secrets ''maximo_apikey'')))"
    by (simp add: maximoRequest_def)
  moreover have "map_of (rq_headers ?req) ''apikey''
              = Some (or_empty (or_str (secrets ''maximoApiKey'') (secrets ''maximo_apikey'')))"
    by (simp add: maximoRequest_def)
  ultimately show "\<exists>req. sent (snd (callMaximoWith rt secrets path method body w)) = sent w @ [req]
         \<and> rq_url req
             = maximoUrl (normalizeBase (or_empty (or_str (secrets ''maximoUrl'') (secrets ''maximo_url'')))) path
         \<and> rq_method req = method
         \<and> map_of (rq_headers req) ''maxauth''
              = Some (or_empty (or_str (secrets ''maximoApiKey'') (secrets ''maximo_apikey'')))
         \<and> map_of (rq_headers req) ''apikey''
              = Some (or_empty (or_str (secrets ''maximoApiKey'') (secrets ''maximo_apikey'')))"
    by blast
next
  show "maximoUrl nb path = nb @ (if startsWith path ''/'' then path else ''/'' @ path)"
    by (simp add: maximoUrl_def)
next
  assume "(nb = [] \<or> last nb \<noteq> CHR ''/'') \<and> \<not> startsWith path ''//''"
  then have p: "\<not> startsWith path ''//''"
    by simp
  show "maximoUrl nb path = nb @ ''/'' @ (if startsWith path ''/'' then tl path else path)"
    by (rule maximoUrl_one_slash)
  show "\<not> startsWith (if startsWith path ''/'' then tl path else path) ''/''"
    using p by (rule maximoUrl_single_slash)
next
  show "normalizeBase b = stripApiSuffix (stripTrailingSlash b)"
    by (simp add: normalizeBase_def)
next
  show "stripTrailingSlash (s @ ''/'') = s"
    by (rule stripTrailingSlash_cases)
next
  assume "s = [] \<or> last s \<noteq> CHR ''/''"
  then show "stripTrailingSlash s = s"
    by (rule stripTrailingSlash_cases)
next
  show "apiSuffixAt t
       = (\<exists>kw sub. t = ''/'' @ kw @ sub \<and> (toLowerCase kw = ''oslc'' \<or> toLowerCase kw = ''api'')
            \<and> (sub = [] \<or> (hd sub = CHR ''/'' \<and> list_all (\<lambda>c. c \<noteq> CHR 0x0A \<and> c \<noteq> CHR 0x0D) sub)))"
    by (rule apiSuffixAt_shape)
next
  assume "apiSuffixAt t \<and> (\<forall>u v. r = u @ v \<and> v \<noteq> [] \<longrightarrow> \<not> apiSuffixAt (v @ t))"
  then show "stripApiSuffix (r @ t) = r"
    using stripApiSuffix_leftmost [of t r] by blast
next
  assume "\<forall>u v. s = u @ v \<longrightarrow> \<not> apiSuffixAt v"
  then show "stripApiSuffix s = s"
    by (rule stripApiSuffix_unmatched)
next
  show "normalizeBase ''https://api.example.com/maximo/oslc/os'' = ''https://api.example.com/maximo''"
    by (rule normalizeBase_examples)
next
  show "normalizeBase ''https://h.example/apix/maximo/'' = ''https://h.example/apix/maximo''"
    by (rule normalizeBase_examples)
next
  show "stripApiSuffix (normalizeBase b) = normalizeBase b"
    by (rule normalizeBase_nothing_left)
qed

theorem callMaximoWith_contract_witness:
  "callMaximoWith sampleRuntime Map.empty ''/api/os/mxapiwo'' ''GET'' None initialWorld
     = (Inl (Error ''Maximo Manage URL is not configured.''), initialWorld)
   \<and> callMaximoWith sampleRuntime [''maximoUrl'' \<mapsto> ''https://h.example/maximo/oslc/'']
        ''/api/os/mxapiwo'' ''GET'' None initialWorld
     = (Inl (Error ''Maximo API key is not configured.''), initialWorld)
   \<and> (\<exists>req. sent (snd (callMaximoWith sampleRuntime
          [''maximoUrl'' \<mapsto> ''https://h.example/maximo/oslc/'', ''maximo_apikey'' \<mapsto> ''k'']
          ''api/os/mxapiwo'' ''GET'' None initialWorld)) = sent initialWorld @ [req]
        \<and> rq_url req = ''https://h.example/maximo/api/os/mxapiwo''
        \<and> map_of (rq_headers req) ''maxauth'' = Some ''k'')
   \<and> last ''https://h.example/maximo'' = CHR ''o''
   \<and> \<not> startsWith ''/api/os/mxapiwo'' ''//''
   \<and> maximoUrl ''https://h.example/maximo'' ''/api/os/mxapiwo'' = ''https://h.example/maximo/api/os/mxapiwo''
   \<and> stripTrailingSlash ''https://h.example/maximo'' = ''https://h.example/maximo''
   \<and> apiSuffixAt ''/OSLC/os''
   \<and> stripApiSuffix (''https://api.example.com/maximo'' @ ''/OSLC/os'') = ''https://api.example.com/maximo''
   \<and> stripApiSuffix ''https://h.example/apix/maximo'' = ''https://h.example/apix/maximo''"
proof -
  have w1: "callMaximoWith sampleRuntime Map.empty ''/api/os/mxapiwo'' ''GET'' None initialWorld
     = (Inl (Error ''Maximo Manage URL is not configured.''), initialWorld)"
    using callMaximoWith_contract [of Map.empty sampleRuntime "''/api/os/mxapiwo''" "''GET''" None initialWorld,
        THEN conjunct1]
    by simp
  have w2: "callMaximoWith sampleRuntime [''maximoUrl'' \<mapsto> ''https://h.example/maximo/oslc/'']
        ''/api/os/mxapiwo'' ''GET'' None initialWorld
     = (Inl (Error ''Maximo API key is not configured.''), initialWorld)"
    using callMaximoWith_contract [of "[''maximoUrl'' \<mapsto> ''https://h.example/maximo/oslc/'']"
        sampleRuntime "''/api/os/mxapiwo''" "''GET''" None initialWorld, THEN conjunct2, THEN conjunct1]
    by simp
  have w3: "\<exists>req. sent (snd (callMaximoWith sampleRuntime
          [''maximoUrl'' \<mapsto> ''https://h.example/maximo/oslc/'', ''maximo_apikey'' \<mapsto> ''k'']
          ''api/os/mxapiwo'' ''GET'' None initialWorld)) = sent initialWorld @ [req]
        \<and> rq_url req = ''https://h.example/maximo/api/os/mxapiwo''
        \<and> map_of (rq_headers req) ''maxauth'' = Some ''k''"
    using callMaximoWith_contract [of
        "[''maximoUrl'' \<mapsto> ''https://h.example/maximo/oslc/'', ''maximo_apikey'' \<mapsto> ''k'']"
        sampleRuntime "''api/os/mxapiwo''" "''GET''" None initialWorld,
        THEN conjunct2, THEN conjunct2, THEN conjunct1]
    by (auto simp: normalizeBase_oslc_example maximoUrl_def startsWith_def)
  have h4: "last ''https://h.example/maximo'' = CHR ''o''" "\<not> startsWith ''/api/os/mxapiwo'' ''//''"
    by (simp_all add: startsWith_def)
  have w4: "maximoUrl ''https://h.example/maximo'' ''/api/os/mxapiwo'' = ''https://h.example/maximo/api/os/mxapiwo''"
    using callMaximoWith_contract [where nb = "''https://h.example/maximo''" and path = "''/api/os/mxapiwo''",
        THEN conjunct2, THEN conjunct2, THEN conjunct2, THEN conjunct2, THEN conjunct1] h4
    by (simp add: startsWith_def)
  have w5: "stripTrailingSlash ''https://h.example/maximo'' = ''https://h.example/maximo''"
    using callMaximoWith_contract [where s = "''https://h.example/maximo''",
        THEN conjunct2, THEN conjunct2, THEN conjunct2, THEN conjunct2, THEN conjunct2,
        THEN conjunct2, THEN conjunct2, THEN conjunct1] h4(1)
    by simp
  have h6: "apiSuffixAt ''/OSLC/os''"
    by (simp add: apiSuffixAt_def startsWith_def toLowerCase_def lowerChar_def subPath_def
        isLineTerminator_def)
  have h6': "\<forall>u v. ''https://api.example.com/maximo'' = u @ v \<and> v \<noteq> [] \<longrightarrow> \<not> apiSuffixAt (v @ ''/OSLC/os'')"
    by (simp add: splits_Cons splits_Nil apiSuffixAt_def startsWith_def toLowerCase_def lowerChar_def
        subPath_def isLineTerminator_def)
  have w6: "stripApiSuffix (''https://api.example.com/maximo'' @ ''/OSLC/os'') = ''https://api.example.com/maximo''"
    using callMaximoWith_contract [where t = "''/OSLC/os''" and r = "''https://api.example.com/maximo''",
        THEN conjunct2, THEN conjunct2, THEN conjunct2, THEN conjunct2, THEN conjunct2,
        THEN conjunct2, THEN conjunct2, THEN conjunct2, THEN conjunct2, THEN conjunct1] h6 h6'
    by blast
  have h7: "\<forall>u v. ''https://h.example/apix/maximo'' = u @ v \<longrightarrow> \<not> apiSuffixAt v"
    by (simp add: all_splits_Cons all_splits_Nil apiSuffixAt_def startsWith_def toLowerCase_def
        lowerChar_def subPath_def isLineTerminator_def)
  have w7: "stripApiSuffix ''https://h.example/apix/maximo'' = ''https://h.example/apix/maximo''"
    using callMaximoWith_contract [where s = "''https://h.example/apix/maximo''",
        THEN conjunct2, THEN conjunct2, THEN conjunct2, THEN conjunct2, THEN conjunct2,
        THEN conjunct2, THEN conjunct2, THEN conjunct2, THEN conjunct2, THEN conjunct2, THEN conjunct1] h7
    by blast
  from w1 w2 w3 h4 w4 w5 h6 w6 w7 show ?thesis by blast
qed

text \<open>
  Claim C8 as stated fails in ``exactly one separating slash'': only one trailing slash is
  removed from the base and the path is taken as it is, so a base that ends in two
  slashes, or a path that begins with two, gives a URL with two slashes at the join.
\<close>

theorem callMaximoWith_two_slashes:
  "map rq_url (sent (snd (callMaximoWith sampleRuntime
      [''maximoUrl'' \<mapsto> ''https://h.example/maximo//'', ''maximoApiKey'' \<mapsto> ''k'']
      ''/api/os/mxapiwo'' ''GET'' None initialWorld)))
     = [''https://h.example/maximo//api/os/mxapiwo'']
   \<and> map rq_url (sent (snd (callMaximoWith sampleRuntime
      [''maximoUrl'' \<mapsto> ''https://h.example/maximo'', ''maximoApiKey'' \<mapsto> ''k'']
      ''//api/os/mxapiwo'' ''GET'' None initialWorld)))
     = [''https://h.example/maximo//api/os/mxapiwo'']"
proof -
  let ?cfg1 = "[''maximoUrl'' \<mapsto> ''https://h.example/maximo//'', ''maximoApiKey'' \<mapsto> ''k'']"
  let ?cfg2 = "[''maximoUrl'' \<mapsto> ''https://h.example/maximo'', ''maximoApiKey'' \<mapsto> ''k'']"
  have c1: "or_empty (or_str (?cfg1 ''maximoUrl'') (?cfg1 ''maximo_url'')) = ''https://h.example/maximo//''"
    "or_empty (or_str (?cfg1 ''maximoApiKey'') (?cfg1 ''maximo_apikey'')) = ''k''"
    by simp_all
  have c2: "or_empty (or_str (?cfg2 ''maximoUrl'') (?cfg2 ''maximo_url'')) = ''https://h.example/maximo''"
    "or_empty (or_str (?cfg2 ''maximoApiKey'') (?cfg2 ''maximo_apikey'')) = ''k''"
    by simp_all
  have "map rq_url (sent (snd (callMaximoWith sampleRuntime ?cfg1 ''/api/os/mxapiwo'' ''GET'' None initialWorld)))
     = [''https://h.example/maximo//api/os/mxapiwo'']"
    using callMaximoWith_sent_url [of ?cfg1 sampleRuntime "''/api/os/mxapiwo''" "''GET''" None]
    by (simp only: c1) (simp add: normalizeBase_examples maximoUrl_def startsWith_def)
  moreover have "map rq_url (sent (snd (callMaximoWith sampleRuntime ?cfg2 ''//api/os/mxapiwo'' ''GET'' None initialWorld)))
     = [''https://h.example/maximo//api/os/mxapiwo'']"
    using callMaximoWith_sent_url [of ?cfg2 sampleRuntime "''//api/os/mxapiwo''" "''GET''" None]
    by (simp only: c2) (simp add: normalizeBase_examples maximoUrl_def startsWith_def)
  ultimately show ?thesis by blast
qed

section \<open>Properties of the proxy\<close>

lemma map_of_assign: "map_of (assign k v kvs) = (map_of kvs)(k \<mapsto> v)"
  by (induction kvs) auto

lemma res_json_simps:
  "fst (res_json rt call code body w) = \<lparr>r_status = code, r_body = body\<rparr>"
  "sent (snd (res_json rt call code body w)) = sent w"
  by (simp_all add: res_json_def Let_def sent_record_trace)

lemma proxyRoute_rejected:
  assumes "proxyTarget cfg (or_empty (or_str (p_kind payload) (Some ''rest'')))
             (or_empty (p_url payload)) (stringEntries (p_headers payload)) = Inl e"
  shows "proxyRoute rt cfg payload w = (Inl e, w)"
  using assms by (simp add: proxyRoute_def Let_def)

lemma proxyRoute_forwarded:
  assumes t: "proxyTarget cfg (or_empty (or_str (p_kind payload) (Some ''rest'')))
             (or_empty (p_url payload)) (stringEntries (p_headers payload)) = Inr (url, headers)"
  shows "sent (snd (proxyRoute rt cfg payload w)) = sent w @
           [proxyRequest rt url (toUpperCase (or_empty (or_str (p_method payload) (Some ''GET''))))
              headers (p_body payload)]"
    (is "_ = sent w @ [?req]")
proof (cases "fetch rt ?req")
  case (Inl e)
  then show ?thesis
    using t by (simp add: proxyRoute_def Let_def do_fetch_simps)
next
  case (Inr resp)
  then show ?thesis
    using t by (simp add: proxyRoute_def Let_def do_fetch_simps sent_record_trace split: option.split)
qed

lemma postProxy_rejected:
  assumes "proxyRoute rt cfg payload w = (Inl e, w)"
  shows "fst (postProxy rt cfg payload w) = \<lparr>r_status = 400, r_body = JObj [(''error'', JStr (errorText e))]\<rparr>
         \<and> sent (snd (postProxy rt cfg payload w)) = sent w"
  using assms by (simp add: postProxy_def Let_def res_json_simps)

lemma postProxy_sent: "sent (snd (postProxy rt cfg payload w)) = sent (snd (proxyRoute rt cfg payload w))"
  by (simp add: postProxy_def Let_def res_json_simps split: sum.split prod.split)

lemma proxyTarget_maximo:
  "proxyTarget cfg ''maximo'' urlIn headers0 =
     (if or_empty (cfg ''maximoUrl'') = [] then Inl (Error ''Maximo Manage URL is not configured.'')
      else if or_empty (cfg ''maximoApiKey'') = [] then Inl (Error ''Maximo API key is not configured.'')
      else if \<not> startsWith (resolveUrl (normalizeBase (or_empty (cfg ''maximoUrl''))) urlIn)
                   (normalizeBase (or_empty (cfg ''maximoUrl'')))
      then Inl (Error ''Maximo proxy URL must be relative or within the configured Maximo base URL.'')
      else Inr (resolveUrl (normalizeBase (or_empty (cfg ''maximoUrl''))) urlIn,
                assign ''apikey'' (or_empty (cfg ''maximoApiKey''))
                  (assign ''maxauth'' (or_empty (cfg ''maximoApiKey''))
                     (defaultHeader ''Content-Type'' ''application/json'' headers0))))"
  by (simp add: proxyTarget_def Let_def)

text \<open>
  What the handler does for a proxy request of kind \<open>maximo\<close>: a missing base URL or API
  key, and a resolved URL whose text does not start with the normalized base, are each
  answered with status 400 and the error message, and nothing is sent upstream. Otherwise
  exactly one request is sent, to the resolved URL, carrying the configured API key in the
  headers \<open>maxauth\<close> and \<open>apikey\<close>. A URL that begins with a slash is resolved to the
  normalized base followed by it.
\<close>

lemma postProxy_maximo_cases:
  assumes kind: "p_kind payload = Some ''maximo''"
  shows
    "(or_empty (cfg ''maximoUrl'') = [] \<longrightarrow>
        fst (postProxy rt cfg payload w)
          = \<lparr>r_status = 400, r_body = JObj [(''error'', JStr ''Maximo Manage URL is not configured.'')]\<rparr>
        \<and> sent (snd (postProxy rt cfg payload w)) = sent w)
     \<and> (or_empty (cfg ''maximoUrl'') \<noteq> [] \<and> or_empty (cfg ''maximoApiKey'') = [] \<longrightarrow>
        fst (postProxy rt cfg payload w)
          = \<lparr>r_status = 400, r_body = JObj [(''error'', JStr ''Maximo API key is not configured.'')]\<rparr>
        \<and> sent (snd (postProxy rt cfg payload w)) = sent w)
     \<and> (or_empty (cfg ''maximoUrl'') \<noteq> [] \<and> or_empty (cfg ''maximoApiKey'') \<noteq> []
         \<and> \<not> startsWith (resolveUrl (normalizeBase (or_empty (cfg ''maximoUrl''))) (or_empty (p_url payload)))
                (normalizeBase (or_empty (cfg ''maximoUrl''))) \<longrightarrow>
        fst (postProxy rt cfg payload w)
          = \<lparr>r_status = 400, r_body = JObj [(''error'',
               JStr ''Maximo proxy URL must be relative or within the configured Maximo base URL.'')]\<rparr>
        \<and> sent (snd (postProxy rt cfg payload w)) = sent w)
     \<and> (or_empty (cfg ''maximoUrl'') \<noteq> [] \<and> or_empty (cfg ''maximoApiKey'') \<noteq> []
         \<and> startsWith (resolveUrl (normalizeBase (or_empty (cfg ''maximoUrl''))) (or_empty (p_url payload)))
              (normalizeBase (or_empty (cfg ''maximoUrl''))) \<longrightarrow>
        (\<exists>req. sent (snd (postProxy rt cfg payload w)) = sent w @ [req]
           \<and> rq_url req = resolveUrl (normalizeBase (or_empty (cfg ''maximoUrl''))) (or_empty (p_url payload))
           \<and> map_of (rq_headers req) ''maxauth'' = Some (or_empty (cfg ''maximoApiKey''))
           \<and> map_of (rq_headers req) ''apikey'' = Some (or_empty (cfg ''maximoApiKey''))))
     \<and> (startsWith (or_empty (p_url payload)) ''/'' \<longrightarrow>
        resolveUrl (normalizeBase (or_empty (cfg ''maximoUrl''))) (or_empty (p_url payload))
          = stripTrailingSlash (normalizeBase (or_empty (cfg ''maximoUrl''))) @ or_empty (p_url payload))
     \<and> (\<forall>req \<in> set (drop (length (sent w)) (sent (snd (postProxy rt cfg payload w)))).
           startsWith (rq_url req) (normalizeBase (or_empty (cfg ''maximoUrl''))))"
proof -
  let ?nb = "normalizeBase (or_empty (cfg ''maximoUrl''))"
  let ?url = "resolveUrl ?nb (or_empty (p_url payload))"
  let ?key = "or_empty (cfg ''maximoApiKey'')"
  let ?headers = "assign ''apikey'' ?key (assign ''maxauth'' ?key
                    (defaultHeader ''Content-Type'' ''application/json'' (stringEntries (p_headers payload))))"
  let ?req = "proxyRequest rt ?url (toUpperCase (or_empty (or_str (p_method payload) (Some ''GET''))))
                ?headers (p_body payload)"
  have k: "or_empty (or_str (p_kind payload) (Some ''rest'')) = ''maximo''"
    using kind by simp
  note target = proxyTarget_maximo [of cfg "or_empty (p_url payload)" "stringEntries (p_headers payload)"]
  have rejected: "fst (postProxy rt cfg payload w) = \<lparr>r_status = 400, r_body = JObj [(''error'', JStr m)]\<rparr>
                  \<and> sent (snd (postProxy rt cfg payload w)) = sent w"
    if "proxyTarget cfg ''maximo'' (or_empty (p_url payload)) (stringEntries (p_headers payload)) = Inl (Error m)"
      "m \<noteq> []" for m
    using postProxy_rejected [OF proxyRoute_rejected, of cfg payload "Error m" rt w] that k by simp
  have c1: "fst (postProxy rt cfg payload w)
          = \<lparr>r_status = 400, r_body = JObj [(''error'', JStr ''Maximo Manage URL is not configured.'')]\<rparr>
        \<and> sent (snd (postProxy rt cfg payload w)) = sent w"
    if "or_empty (cfg ''maximoUrl'') = []"
    using that target by (intro rejected) simp_all
  have c2: "fst (postProxy rt cfg payload w)
          = \<lparr>r_status = 400, r_body = JObj [(''error'', JStr ''Maximo API key is not configured.'')]\<rparr>
        \<and> sent (snd (postProxy rt cfg payload w)) = sent w"
    if "or_empty (cfg ''maximoUrl'') \<noteq> [] \<and> ?key = []"
    using that target by (intro rejected) simp_all
  have c3: "fst (postProxy rt cfg payload w)
          = \<lparr>r_status = 400, r_body = JObj [(''error'',
               JStr ''Maximo proxy URL must be relative or within the configured Maximo base URL.'')]\<rparr>
        \<and> sent (snd (postProxy rt cfg payload w)) = sent w"
    if "or_empty (cfg ''maximoUrl'') \<noteq> [] \<and> ?key \<noteq> [] \<and> \<not> startsWith ?url ?nb"
    using that target by (intro rejected) simp_all
  have fwd: "sent (snd (postProxy rt cfg payload w)) = sent w @ [?req]"
    if "or_empty (cfg ''maximoUrl'') \<noteq> [] \<and> ?key \<noteq> [] \<and> startsWith ?url ?nb"
  proof -
    have "proxyTarget cfg (or_empty (or_str (p_kind payload) (Some ''rest'')))
             (or_empty (p_url payload)) (stringEntries (p_headers payload)) = Inr (?url, ?headers)"
      using that target k by simp
    then show ?thesis
      using proxyRoute_forwarded [of cfg payload ?url ?headers rt w] by (simp add: postProxy_sent)
  qed
  have req: "rq_url ?req = ?url \<and> map_of (rq_headers ?req) ''maxauth'' = Some ?key
             \<and> map_of (rq_headers ?req) ''apikey'' = Some ?key"
    by (simp add: proxyRequest_def map_of_assign)
  have c4: "\<exists>req. sent (snd (postProxy rt cfg payload w)) = sent w @ [req]
           \<and> rq_url req = ?url
           \<and> map_of (rq_headers req) ''maxauth'' = Some ?key
           \<and> map_of (rq_headers req) ''apikey'' = Some ?key"
    if "or_empty (cfg ''maximoUrl'') \<noteq> [] \<and> ?key \<noteq> [] \<and> startsWith ?url ?nb"
    using fwd [OF that] req by blast
  have c5: "?url = stripTrailingSlash ?nb @ or_empty (p_url payload)"
    if "startsWith (or_empty (p_url payload)) ''/''"
    using that by (simp add: resolveUrl_def)
  have c6: "\<forall>req \<in> set (drop (length (sent w)) (sent (snd (postProxy rt cfg payload w)))).
           startsWith (rq_url req) ?nb"
  proof (cases "or_empty (cfg ''maximoUrl'') \<noteq> [] \<and> ?key \<noteq> [] \<and> startsWith ?url ?nb")
    case True
    then show ?thesis using fwd [OF True] req by simp
  next
    case False
    then have "sent (snd (postProxy rt cfg payload w)) = sent w"
      using c1 c2 c3 by blast
    then show ?thesis by simp
  qed
  show ?thesis
    using c1 c2 c3 c4 c5 c6 by blast
qed

lemma normalizeBase_oslc_example2:
  "normalizeBase ''https://h.example/maximo/oslc'' = ''https://h.example/maximo''"
  by (simp add: normalizeBase_def stripTrailingSlash_def apiSuffixAt_def startsWith_def
      toLowerCase_def lowerChar_def subPath_def isLineTerminator_def)

lemma sampleProxyRequest_simps:
  "p_kind (sampleProxyRequest url) = Some ''maximo''"
  "or_empty (p_url (sampleProxyRequest url)) = url"
  by (simp_all add: sampleProxyRequest_def)

lemma postProxy_maximo_example:
  "fst (postProxy sampleRuntime
        [''maximoUrl'' \<mapsto> ''https://h.example/maximo/oslc'', ''maximoApiKey'' \<mapsto> ''k'']
        (sampleProxyRequest ''https://evil.example/x'') initialWorld)
       = \<lparr>r_status = 400, r_body = JObj [(''error'',
               JStr ''Maximo proxy URL must be relative or within the configured Maximo base URL.'')]\<rparr>
   \<and> sent (snd (postProxy sampleRuntime
        [''maximoUrl'' \<mapsto> ''https://h.example/maximo/oslc'', ''maximoApiKey'' \<mapsto> ''k'']
        (sampleProxyRequest ''https://evil.example/x'') initialWorld)) = []
   \<and> (\<exists>req. sent (snd (postProxy sampleRuntime
        [''maximoUrl'' \<mapsto> ''https://h.example/maximo/oslc'', ''maximoApiKey'' \<mapsto> ''k'']
        (sampleProxyRequest ''/api/os/mxapiasset'') initialWorld)) = [req]
        \<and> rq_url req = ''https://h.example/maximo/api/os/mxapiasset''
        \<and> map_of (rq_headers req) ''maxauth'' = Some ''k''
        \<and> map_of (rq_headers req) ''apikey'' = Some ''k'')"
proof -
  let ?cfg = "[''maximoUrl'' \<mapsto> ''https://h.example/maximo/oslc'', ''maximoApiKey'' \<mapsto> ''k'']"
  have out: "fst (postProxy sampleRuntime ?cfg (sampleProxyRequest ''https://evil.example/x'') initialWorld)
       = \<lparr>r_status = 400, r_body = JObj [(''error'',
               JStr ''Maximo proxy URL must be relative or within the configured Maximo base URL.'')]\<rparr>
     \<and> sent (snd (postProxy sampleRuntime ?cfg (sampleProxyRequest ''https://evil.example/x'') initialWorld)) = []"
    using postProxy_maximo_cases [where payload = "sampleProxyRequest ''https://evil.example/x''"
        and cfg = ?cfg and rt = sampleRuntime and w = initialWorld, OF sampleProxyRequest_simps(1), THEN conjunct2, THEN conjunct2, THEN conjunct1]
    by (simp add: sampleProxyRequest_simps normalizeBase_oslc_example2 resolveUrl_def startsWith_def
        initialWorld_def)
  have inside: "\<exists>req. sent (snd (postProxy sampleRuntime ?cfg
          (sampleProxyRequest ''/api/os/mxapiasset'') initialWorld)) = [req]
        \<and> rq_url req = ''https://h.example/maximo/api/os/mxapiasset''
        \<and> map_of (rq_headers req) ''maxauth'' = Some ''k''
        \<and> map_of (rq_headers req) ''apikey'' = Some ''k''"
    using postProxy_maximo_cases [where payload = "sampleProxyRequest ''/api/os/mxapiasset''"
        and cfg = ?cfg and rt = sampleRuntime and w = initialWorld, OF sampleProxyRequest_simps(1), THEN conjunct2, THEN conjunct2, THEN conjunct2, THEN conjunct1]
    by (simp add: sampleProxyRequest_simps normalizeBase_oslc_example2 resolveUrl_def startsWith_def
        stripTrailingSlash_def initialWorld_def)
  from out inside show ?thesis by simp
qed

lemma postProxy_maximo_forwarded:
  assumes "cfg ''maximoUrl'' = Some base" "normalizeBase base = base" "base \<noteq> []"
    "cfg ''maximoApiKey'' = Some ''k''" "\<not> startsWith url ''/''" "startsWith url base"
  shows "map (\<lambda>req. (rq_url req, map_of (rq_headers req) ''maxauth'', map_of (rq_headers req) ''apikey''))
           (sent (snd (postProxy sampleRuntime cfg (sampleProxyRequest url) initialWorld)))
         = [(url, Some ''k'', Some ''k'')]"
proof -
  have "\<exists>req. sent (snd (postProxy sampleRuntime cfg (sampleProxyRequest url) initialWorld))
            = sent initialWorld @ [req]
          \<and> rq_url req = resolveUrl (normalizeBase (or_empty (cfg ''maximoUrl'')))
                            (or_empty (p_url (sampleProxyRequest url)))
          \<and> map_of (rq_headers req) ''maxauth'' = Some (or_empty (cfg ''maximoApiKey''))
          \<and> map_of (rq_headers req) ''apikey'' = Some (or_empty (cfg ''maximoApiKey''))"
    using postProxy_maximo_cases [where payload = "sampleProxyRequest url"
        and cfg = cfg and rt = sampleRuntime and w = initialWorld, OF sampleProxyRequest_simps(1),
        THEN conjunct2, THEN conjunct2, THEN conjunct2, THEN conjunct1] assms
    by (simp add: sampleProxyRequest_simps resolveUrl_def)
  then show ?thesis
    using assms by (auto simp: sampleProxyRequest_simps resolveUrl_def initialWorld_def)
qed

text \<open>
  Claim C7 fails on the code. The handler rejects a URL that is not ``within the
  configured Maximo base URL'' by testing \<open>url.startsWith(base)\<close> on the text of the URL.
  A URL whose text begins with the base but which names another host (the base followed
  by more of a host name, or the base's host used as the user-info part before \<open>@\<close>), or
  another application on the same host, passes the test: the request is forwarded to it
  with the configured API key in the headers \<open>maxauth\<close> and \<open>apikey\<close>.
\<close>

theorem postProxy_forwards_outside_base:
  "map (\<lambda>req. (rq_url req, map_of (rq_headers req) ''maxauth'', map_of (rq_headers req) ''apikey''))
     (sent (snd (postProxy sampleRuntime
        [''maximoUrl'' \<mapsto> ''https://h.example'', ''maximoApiKey'' \<mapsto> ''k'']
        (sampleProxyRequest ''https://h.example.evil.test/x'') initialWorld)))
     = [(''https://h.example.evil.test/x'', Some ''k'', Some ''k'')]
   \<and> map (\<lambda>req. (rq_url req, map_of (rq_headers req) ''maxauth'', map_of (rq_headers req) ''apikey''))
     (sent (snd (postProxy sampleRuntime
        [''maximoUrl'' \<mapsto> ''https://h.example'', ''maximoApiKey'' \<mapsto> ''k'']
        (sampleProxyRequest ''https://h.example@evil.test/x'') initialWorld)))
     = [(''https://h.example@evil.test/x'', Some ''k'', Some ''k'')]
   \<and> map (\<lambda>req. (rq_url req, map_of (rq_headers req) ''maxauth'', map_of (rq_headers req) ''apikey''))
     (sent (snd (postProxy sampleRuntime
        [''maximoUrl'' \<mapsto> ''https://h.example/maximo'', ''maximoApiKey'' \<mapsto> ''k'']
        (sampleProxyRequest ''https://h.example/maximo-other/x'') initialWorld)))
     = [(''https://h.example/maximo-other/x'', Some ''k'', Some ''k'')]"
proof -
  have n1: "normalizeBase ''https://h.example'' = ''https://h.example''"
    by (simp add: normalizeBase_def stripTrailingSlash_def apiSuffixAt_def startsWith_def
        toLowerCase_def lowerChar_def)
  have n2: "normalizeBase ''https://h.example/maximo'' = ''https://h.example/maximo''"
    by (rule normalizeBase_examples)
  have a: "map (\<lambda>req. (rq_url req, map_of (rq_headers req) ''maxauth'', map_of (rq_headers req) ''apikey''))
     (sent (snd (postProxy sampleRuntime
        [''maximoUrl'' \<mapsto> ''https://h.example'', ''maximoApiKey'' \<mapsto> ''k'']
        (sampleProxyRequest ''https://h.example.evil.test/x'') initialWorld)))
     = [(''https://h.example.evil.test/x'', Some ''k'', Some ''k'')]"
    by (rule postProxy_maximo_forwarded [OF _ n1]) (simp_all add: startsWith_def)
  have b: "map (\<lambda>req. (rq_url req, map_of (rq_headers req) ''maxauth'', map_of (rq_headers req) ''apikey''))
     (sent (snd (postProxy sampleRuntime
        [''maximoUrl'' \<mapsto> ''https://h.example'', ''maximoApiKey'' \<mapsto> ''k'']
        (sampleProxyRequest ''https://h.example@evil.test/x'') initialWorld)))
     = [(''https://h.example@evil.test/x'', Some ''k'', Some ''k'')]"
    by (rule postProxy_maximo_forwarded [OF _ n1]) (simp_all add: startsWith_def)
  have c: "map (\<lambda>req. (rq_url req, map_of (rq_headers req) ''maxauth'', map_of (rq_headers req) ''apikey''))
     (sent (snd (postProxy sampleRuntime
        [''maximoUrl'' \<mapsto> ''https://h.example/maximo'', ''maximoApiKey'' \<mapsto> ''k'']
        (sampleProxyRequest ''https://h.example/maximo-other/x'') initialWorld)))
     = [(''https://h.example/maximo-other/x'', Some ''k'', Some ''k'')]"
    by (rule postProxy_maximo_forwarded [OF _ n2]) (simp_all add: startsWith_def)
  from a b c show ?thesis by blast
qed

section \<open>Properties of the chat handler\<close>

lemma chatCompletionWith_no_key:
  assumes "or_empty (a_apiKey args) = []"
  shows "chatCompletionWith rt args w = (Inl (Error ''AI API key is not configured.''), w)"
  using assms by (simp add: chatCompletionWith_def Let_def)

lemma chatArgs_simps:
  "a_apiKey (chatArgs m p model t sys prompt) = apiKey (resolveProviderAuth m p)"
  "a_baseUrl (chatArgs m p model t sys prompt) = baseUrl (resolveProviderAuth m p)"
  "a_provider (chatArgs m p model t sys prompt) = p"
  "a_prompt (chatArgs m p model t sys prompt) = prompt"
  "a_system (chatArgs m p model t sys prompt) = sys"
  by (simp_all add: chatArgs_def Let_def)

lemma postChat_ai_no_key:
  assumes "requestMode req \<noteq> ''maximo''"
    and "apiKey (resolveProviderAuth (cfg ++ c_settings req) (requestProvider cfg req)) = None"
  shows "postChat rt cfg req w
         = res_json rt (chatCall req) 400 (JObj [(''error'', JStr ''AI API key is not configured.'')]) w"
proof -
  have "chatRoute rt cfg req w = (Inl (Error ''AI API key is not configured.''), w)"
    using assms by (simp add: chatRoute_def Let_def chatCompletionWith_no_key chatArgs_simps)
  then show ?thesis
    by (simp add: postChat_def Let_def)
qed

lemma items_record_trace:
  "set (items (store (snd (record_trace rt partial w))))
     \<subseteq> insert (makeItem (stamp rt (clock w)) partial) (set (items (store w)))"
  by (auto simp: record_trace_def addTrace_def Let_def dest: in_set_takeD)

lemma makeItem_apiTrace:
  "t_kind (makeItem g (apiTrace rt call code body w)) = Krest"
  "t_status (makeItem g (apiTrace rt call code body w)) = Some code"
  "t_label (makeItem g (apiTrace rt call code body w)) = Some ''API''"
  by (simp_all add: makeItem_def apiTrace_def blank_def)

lemma items_res_json:
  assumes "i \<in> set (items (store (snd (res_json rt call code body w))))"
  shows "i \<in> set (items (store w)) \<or> (t_kind i = Krest \<and> t_status i = Some code \<and> t_label i = Some ''API'')"
proof -
  let ?w1 = "snd (record_trace rt (apiTrace rt call code body w) w)"
  let ?p2 = "apiTrace rt call code (JStr (JSON_stringify rt body)) ?w1"
  have "i \<in> set (items (store (snd (record_trace rt ?p2 ?w1))))"
    using assms by (simp add: res_json_def Let_def)
  then have "i = makeItem (stamp rt (clock ?w1)) ?p2 \<or> i \<in> set (items (store ?w1))"
    using items_record_trace [of rt ?p2 ?w1] by blast
  moreover have "i = makeItem (stamp rt (clock w)) (apiTrace rt call code body w) \<or> i \<in> set (items (store w))"
    if "i \<in> set (items (store ?w1))"
    using that items_record_trace [of rt "apiTrace rt call code body w" w] by blast
  ultimately show ?thesis
    using makeItem_apiTrace by metis
qed

lemma sampleAiRequest_no_key:
  "requestMode sampleAiRequest \<noteq> ''maximo''
   \<and> apiKey (resolveProviderAuth (Map.empty ++ c_settings sampleAiRequest)
        (requestProvider Map.empty sampleAiRequest)) = None"
  by (simp add: requestMode_def requestProvider_def sampleAiRequest_def toLowerCase_def lowerChar_def
      resolveProviderAuth_def providerEntry_def or_undefined_def trim_def Let_def)

text \<open>
  Claim C2, as amended. \<open>chatCompletionWith\<close> without an API key returns the
  configuration error and leaves the world as it was: no request is sent, no trace item
  recorded. So \<open>POST /api/chat\<close> in AI mode, when no key resolves for the requested
  provider, answers 400 with the message \<open>AI API key is not configured.\<close>, sends nothing
  upstream and records no \<open>ai\<close> item; the only items recorded are those of the request
  tracing of the server, of kind \<open>rest\<close> with label \<open>API\<close> and status 400.
\<close>

theorem postChat_missing_key:
  assumes "requestMode req \<noteq> ''maximo''"
    and "apiKey (resolveProviderAuth (cfg ++ c_settings req) (requestProvider cfg req)) = None"
  shows
    "(or_empty (a_apiKey args) = [] \<longrightarrow>
        chatCompletionWith rt args w = (Inl (Error ''AI API key is not configured.''), w))
     \<and> fst (postChat rt cfg req w)
         = \<lparr>r_status = 400, r_body = JObj [(''error'', JStr ''AI API key is not configured.'')]\<rparr>
     \<and> sent (snd (postChat rt cfg req w)) = sent w
     \<and> (\<forall>i \<in> set (items (store (snd (postChat rt cfg req w)))).
           i \<in> set (items (store w))
           \<or> (t_kind i = Krest \<and> t_status i = Some 400 \<and> t_label i = Some ''API''))"
proof -
  note run = postChat_ai_no_key [OF assms, of rt w]
  have "\<forall>i \<in> set (items (store (snd (postChat rt cfg req w)))).
           i \<in> set (items (store w))
           \<or> (t_kind i = Krest \<and> t_status i = Some 400 \<and> t_label i = Some ''API'')"
    unfolding run using items_res_json by blast
  then show ?thesis
    using chatCompletionWith_no_key [of args rt w] by (simp add: run res_json_simps)
qed

theorem postChat_missing_key_witness:
  "requestMode sampleAiRequest \<noteq> ''maximo''
   \<and> apiKey (resolveProviderAuth (Map.empty ++ c_settings sampleAiRequest)
        (requestProvider Map.empty sampleAiRequest)) = None
   \<and> fst (postChat sampleRuntime Map.empty sampleAiRequest initialWorld)
       = \<lparr>r_status = 400, r_body = JObj [(''error'', JStr ''AI API key is not configured.'')]\<rparr>
   \<and> sent (snd (postChat sampleRuntime Map.empty sampleAiRequest initialWorld)) = []
   \<and> chatCompletionWith sampleRuntime (chatArgs Map.empty ''openai'' [] (1 / 5) None ''hello'') initialWorld
       = (Inl (Error ''AI API key is not configured.''), initialWorld)"
  using postChat_missing_key [of sampleAiRequest Map.empty
      "chatArgs Map.empty ''openai'' [] (1 / 5) None ''hello''" sampleRuntime initialWorld]
    sampleAiRequest_no_key
  by (simp add: initialWorld_def chatArgs_simps resolveProviderAuth_def providerEntry_def
      or_undefined_def trim_def toLowerCase_def Let_def)

text \<open>
  Claim C2 as stated fails in its last part: on the initial store the attempt leaves an
  item of the request tracing, with \<open>status\<close> set to 400.
\<close>

theorem postChat_missing_key_counterexample:
  "r_status (fst (postChat sampleRuntime Map.empty sampleAiRequest initialWorld)) = 400
   \<and> (Krest, Some ''API'', Some 400)
       \<in> set (map (\<lambda>i. (t_kind i, t_label i, t_status i))
           (items (store (snd (postChat sampleRuntime Map.empty sampleAiRequest initialWorld)))))"
proof -
  have "postChat sampleRuntime Map.empty sampleAiRequest initialWorld
        = res_json sampleRuntime (chatCall sampleAiRequest) 400
            (JObj [(''error'', JStr ''AI API key is not configured.'')]) initialWorld"
    using sampleAiRequest_no_key by (intro postChat_ai_no_key) simp_all
  then show ?thesis
    by (simp add: res_json_def record_trace_def addTrace_def makeItem_def apiTrace_def blank_def
        initialWorld_def initialStore_def Let_def)
qed

lemma isSpace_slash: "\<not> isSpace CHR ''/''"
  by (simp add: isSpace_def)

lemma trim_keeps_first:
  assumes "\<not> isSpace c"
  shows "\<exists>rest. trim (c # cs) = c # rest"
proof -
  have "dropWhile isSpace (rev cs @ [c]) = dropWhile isSpace (rev cs) @ [c]
        \<or> dropWhile isSpace (rev cs @ [c]) = [c]"
    using assms by (simp add: dropWhile_append)
  then have "trim (c # cs) = c # rev (dropWhile isSpace (rev cs)) \<or> trim (c # cs) = [c]"
    using assms by (auto simp: trim_def)
  then show ?thesis by blast
qed

lemma trim_literal_path:
  assumes "startsWith t ''/''"
  shows "startsWith (trim t) ''/''"
proof -
  obtain cs where "t = CHR ''/'' # cs"
    using assms startsWith_slash by blast
  then show ?thesis
    using trim_keeps_first [OF isSpace_slash, of cs] by (auto simp: startsWith_def)
qed

lemma maximoReply_world:
  "snd (maximoReply rt m path echo w) = snd (callMaximoWith rt m path ''GET'' None w)"
  by (simp add: maximoReply_def Let_def split: sum.split)

lemma chatRoute_literal_path:
  assumes "requestMode req = ''maximo''" "startsWith (trim (requestText req)) ''/''"
  shows "chatRoute rt cfg req w = maximoReply rt (cfg ++ c_settings req) (trim (requestText req)) None w"
  using assms by (simp add: chatRoute_def maximoRoute_def Let_def)

lemma chatRoute_query:
  assumes "requestMode req = ''maximo''" "\<not> startsWith (trim (requestText req)) ''/''"
    "\<not> summarizeIntent (toLowerCase (trim (requestText req)))"
  shows "chatRoute rt cfg req w
         = maximoReply rt (cfg ++ c_settings req)
             (queryPath rt (heuristics (requestUiOS req) (toLowerCase (trim (requestText req)))))
             (Some (queryEcho (heuristics (requestUiOS req) (toLowerCase (trim (requestText req)))))) w"
  using assms by (simp add: chatRoute_def maximoRoute_def Let_def)

lemma lower_corrective:
  "toLowerCase ''show me all corrective work orders'' = ''show me all corrective work orders''"
  by (simp add: toLowerCase_def lowerChar_def)

lemma lower_locations:
  "toLowerCase ''show me all locations'' = ''show me all locations''"
  by (simp add: toLowerCase_def lowerChar_def)

lemma heuristics_corrective:
  "heuristics [] ''show me all corrective work orders''
     = \<lparr>h_os = ''mxapiwo'', h_where = correctiveWhere, h_select = woSelect, h_pageSize = 100\<rparr>"
  by (simp add: heuristics_def Let_def startsWith_def)

lemma heuristics_locations:
  "heuristics [] ''show me all locations''
     = \<lparr>h_os = ''mxapilocation'', h_where = [], h_select = [], h_pageSize = 50\<rparr>"
  by (simp add: heuristics_def Let_def startsWith_def)

lemma correctiveWhere_includes: "includes_str correctiveWhere ''CORRECTIVE''"
  by (simp add: correctiveWhere_def startsWith_def)

text \<open>
  Claim C5. The keyword rules are a function of the lower-cased input. On
  \<open>show me all corrective work orders\<close> (with no object structure chosen in the UI) they
  give the work-order object structure \<open>mxapiwo\<close>, a filter that contains
  \<open>CORRECTIVE\<close> and page size 100; on \<open>show me all locations\<close> they give
  \<open>mxapilocation\<close> with no filter. In backend-query mode an input that begins with a
  slash is not classified: after trimming it still begins with the slash and is passed as
  the path of a direct \<open>GET\<close> backend call. Any other input that is not a summarize
  request is answered by the backend query built from the rules applied to the lower-cased
  trimmed input.
\<close>

theorem heuristics_examples_and_bypass:
  "heuristics [] (toLowerCase ''show me all corrective work orders'')
     = \<lparr>h_os = ''mxapiwo'', h_where = correctiveWhere, h_select = woSelect, h_pageSize = 100\<rparr>
   \<and> includes_str correctiveWhere ''CORRECTIVE''
   \<and> heuristics [] (toLowerCase ''show me all locations'')
     = \<lparr>h_os = ''mxapilocation'', h_where = [], h_select = [], h_pageSize = 50\<rparr>
   \<and> (requestMode req = ''maximo'' \<and> startsWith (requestText req) ''/'' \<longrightarrow>
        startsWith (trim (requestText req)) ''/''
        \<and> chatRoute rt cfg req w
            = maximoReply rt (cfg ++ c_settings req) (trim (requestText req)) None w
        \<and> snd (chatRoute rt cfg req w)
            = snd (callMaximoWith rt (cfg ++ c_settings req) (trim (requestText req)) ''GET'' None w))
   \<and> (requestMode req = ''maximo'' \<and> \<not> startsWith (trim (requestText req)) ''/''
        \<and> \<not> summarizeIntent (toLowerCase (trim (requestText req))) \<longrightarrow>
        chatRoute rt cfg req w
          = maximoReply rt (cfg ++ c_settings req)
              (queryPath rt (heuristics (requestUiOS req) (toLowerCase (trim (requestText req)))))
              (Some (queryEcho (heuristics (requestUiOS req) (toLowerCase (trim (requestText req)))))) w)"
proof (intro conjI impI)
  show "heuristics [] (toLowerCase ''show me all corrective work orders'')
     = \<lparr>h_os = ''mxapiwo'', h_where = correctiveWhere, h_select = woSelect, h_pageSize = 100\<rparr>"
    by (simp only: lower_corrective heuristics_corrective)
  show "includes_str correctiveWhere ''CORRECTIVE''"
    by (rule correctiveWhere_includes)
  show "heuristics [] (toLowerCase ''show me all locations'')
     = \<lparr>h_os = ''mxapilocation'', h_where = [], h_select = [], h_pageSize = 50\<rparr>"
    by (simp only: lower_locations heuristics_locations)
next
  assume a: "requestMode req = ''maximo'' \<and> startsWith (requestText req) ''/''"
  then show t: "startsWith (trim (requestText req)) ''/''"
    using trim_literal_path by blast
  show r: "chatRoute rt cfg req w
            = maximoReply rt (cfg ++ c_settings req) (trim (requestText req)) None w"
    using a t by (intro chatRoute_literal_path) simp_all
  show "snd (chatRoute rt cfg req w)
            = snd (callMaximoWith rt (cfg ++ c_settings req) (trim (requestText req)) ''GET'' None w)"
    by (simp only: r maximoReply_world)
next
  assume "requestMode req = ''maximo'' \<and> \<not> startsWith (trim (requestText req)) ''/''
        \<and> \<not> summarizeIntent (toLowerCase (trim (requestText req)))"
  then show "chatRoute rt cfg req w
          = maximoReply rt (cfg ++ c_settings req)
              (queryPath rt (heuristics (requestUiOS req) (toLowerCase (trim (requestText req)))))
              (Some (queryEcho (heuristics (requestUiOS req) (toLowerCase (trim (requestText req)))))) w"
    by (intro chatRoute_query) simp_all
qed

lemma sampleMaximoRequest_simps:
  "requestMode (sampleMaximoRequest t) = ''maximo''"
  "requestText (sampleMaximoRequest t) = t"
  "requestUiOS (sampleMaximoRequest t) = []"
  "c_settings (sampleMaximoRequest t) = Map.empty"
  by (simp_all add: requestMode_def requestText_def requestUiOS_def sampleMaximoRequest_def
      toLowerCase_def lowerChar_def trim_def)

lemma queryPath_corrective:
  "queryPath sampleRuntime (heuristics [] ''show me all corrective work orders'')
     = ''/api/os/mxapiwo?oslc.pageSize=100&oslc.select='' @ woSelect @ ''&oslc.where='' @ correctiveWhere"
  by (simp add: heuristics_corrective queryPath_def querySelect_def selectTruthy_def selectParam_def
      sampleRuntime_def int_string_def woSelect_def correctiveWhere_def Let_def)

text \<open>
  The lookup of the default select finds inherited properties: for the object structure
  \<open>constructor\<close> the query carries the text of the \<open>Object\<close> function as its select.
\<close>

lemma querySelect_inherited:
  "querySelect \<lparr>h_os = ''Constructor'', h_where = [], h_select = [], h_pageSize = 50\<rparr> = ObjectConstructor
   \<and> querySelect \<lparr>h_os = ''__proto__'', h_where = [], h_select = [], h_pageSize = 50\<rparr> = ObjectPrototype
   \<and> queryPath sampleRuntime \<lparr>h_os = ''constructor'', h_where = [], h_select = [], h_pageSize = 50\<rparr>
       = ''/api/os/constructor?oslc.pageSize=50&oslc.select=function Object() { [native code] }''"
  by (simp add: queryPath_def querySelect_def defaultSelectByOS_def selectTruthy_def selectParam_def
      toLowerCase_def lowerChar_def sampleRuntime_def int_string_def Let_def)

theorem heuristics_examples_and_bypass_witness:
  "requestMode (sampleMaximoRequest ''/api/os/mxapiasset'') = ''maximo''
   \<and> requestMode (sampleMaximoRequest ''show me all corrective work orders'') = ''maximo''
   \<and> startsWith (requestText (sampleMaximoRequest ''/api/os/mxapiasset'')) ''/''
   \<and> map rq_url (sent (snd (chatRoute sampleRuntime
        [''maximoUrl'' \<mapsto> ''https://h.example/maximo/oslc'', ''maximoApiKey'' \<mapsto> ''k'']
        (sampleMaximoRequest ''/api/os/mxapiasset'') initialWorld)))
      = [''https://h.example/maximo/api/os/mxapiasset'']
   \<and> \<not> startsWith (trim (requestText (sampleMaximoRequest ''show me all corrective work orders''))) ''/''
   \<and> \<not> summarizeIntent (toLowerCase (trim (requestText (sampleMaximoRequest ''show me all corrective work orders''))))
   \<and> map rq_url (sent (snd (chatRoute sampleRuntime
        [''maximoUrl'' \<mapsto> ''https://h.example/maximo/oslc'', ''maximoApiKey'' \<mapsto> ''k'']
        (sampleMaximoRequest ''show me all corrective work orders'') initialWorld)))
      = [''https://h.example/maximo/api/os/mxapiwo?oslc.pageSize=100&oslc.select='' @ woSelect
           @ ''&oslc.where='' @ correctiveWhere]"
proof -
  let ?cfg = "[''maximoUrl'' \<mapsto> ''https://h.example/maximo/oslc'', ''maximoApiKey'' \<mapsto> ''k'']"
  have cfg: "or_empty (or_str (?cfg ''maximoUrl'') (?cfg ''maximo_url'')) = ''https://h.example/maximo/oslc''"
    "or_empty (or_str (?cfg ''maximoApiKey'') (?cfg ''maximo_apikey'')) = ''k''"
    by simp_all
  have sent: "map rq_url (sent (snd (callMaximoWith sampleRuntime ?cfg path ''GET'' None initialWorld)))
              = [maximoUrl ''https://h.example/maximo'' path]" for path
    using callMaximoWith_sent [of ?cfg sampleRuntime path "''GET''" None initialWorld]
    by (simp only: cfg) (simp add: normalizeBase_oslc_example2 maximoRequest_def initialWorld_def)
  have trim1: "trim ''/api/os/mxapiasset'' = ''/api/os/mxapiasset''"
    by (simp add: trim_def isSpace_def)
  have trim2: "trim ''show me all corrective work orders'' = ''show me all corrective work orders''"
    by (simp add: trim_def isSpace_def)
  have nosum: "\<not> summarizeIntent ''show me all corrective work orders''"
    by (simp add: summarizeIntent_def startsWith_def)
  note inst1 = heuristics_examples_and_bypass [of "sampleMaximoRequest ''/api/os/mxapiasset''"
      sampleRuntime ?cfg initialWorld, THEN conjunct2, THEN conjunct2, THEN conjunct2, THEN conjunct1]
  note inst2 = heuristics_examples_and_bypass [of "sampleMaximoRequest ''show me all corrective work orders''"
      sampleRuntime ?cfg initialWorld, THEN conjunct2, THEN conjunct2, THEN conjunct2, THEN conjunct2]
  have w1: "map rq_url (sent (snd (chatRoute sampleRuntime ?cfg
        (sampleMaximoRequest ''/api/os/mxapiasset'') initialWorld)))
      = [''https://h.example/maximo/api/os/mxapiasset'']"
    using inst1
    by (simp add: sampleMaximoRequest_simps trim1 maximoReply_world sent maximoUrl_def startsWith_def)
  have w2: "map rq_url (sent (snd (chatRoute sampleRuntime ?cfg
        (sampleMaximoRequest ''show me all corrective work orders'') initialWorld)))
      = [''https://h.example/maximo/api/os/mxapiwo?oslc.pageSize=100&oslc.select='' @ woSelect
           @ ''&oslc.where='' @ correctiveWhere]"
    using inst2 nosum
    by (simp add: sampleMaximoRequest_simps trim2 lower_corrective maximoReply_world sent
        queryPath_corrective maximoUrl_def startsWith_def)
  show ?thesis
    using w1 w2 nosum by (simp add: sampleMaximoRequest_simps trim2 lower_corrective startsWith_def)
qed

lemma do_fetch_store: "store (snd (do_fetch rt req w)) = store w" "clock (snd (do_fetch rt req w)) = clock w"
  by (simp_all add: do_fetch_def)

lemma post_and_trace_sent:
  "sent (snd (post_and_trace rt lbl url hs body w))
     = sent w @ [\<lparr>rq_url = url, rq_method = ''POST'', rq_headers = hs,
                   rq_body = Some (JSON_stringify rt body)\<rparr>]"
  by (simp add: post_and_trace_def Let_def do_fetch_simps sent_record_trace split: sum.split option.split)

lemma post_and_trace_world:
  "snd (post_and_trace rt lbl url hs body w)
     = (case fetch rt \<lparr>rq_url = url, rq_method = ''POST'', rq_headers = hs,
                        rq_body = Some (JSON_stringify rt body)\<rparr> of
          Inl e \<Rightarrow> snd (do_fetch rt \<lparr>rq_url = url, rq_method = ''POST'', rq_headers = hs,
                        rq_body = Some (JSON_stringify rt body)\<rparr> w)
        | Inr resp \<Rightarrow>
            snd (record_trace rt (aiTrace rt lbl url body resp (clock w))
              (snd (do_fetch rt \<lparr>rq_url = url, rq_method = ''POST'', rq_headers = hs,
                        rq_body = Some (JSON_stringify rt body)\<rparr> w))))"
  by (simp add: post_and_trace_def Let_def do_fetch_simps do_fetch_store split: sum.split option.split)

lemma post_and_trace_items:
  assumes "i \<in> set (items (store (snd (post_and_trace rt lbl url hs body w))))"
  shows "i \<in> set (items (store w)) \<or> t_kind i = Kai"
proof (cases "fetch rt \<lparr>rq_url = url, rq_method = ''POST'', rq_headers = hs,
                        rq_body = Some (JSON_stringify rt body)\<rparr>")
  case (Inl e)
  then show ?thesis
    using assms by (simp add: post_and_trace_world do_fetch_store)
next
  case (Inr resp)
  let ?w1 = "snd (do_fetch rt \<lparr>rq_url = url, rq_method = ''POST'', rq_headers = hs,
                        rq_body = Some (JSON_stringify rt body)\<rparr> w)"
  let ?p = "aiTrace rt lbl url body resp (clock w)"
  have "i \<in> set (items (store (snd (record_trace rt ?p ?w1))))"
    using assms Inr by (simp add: post_and_trace_world)
  then have "i = makeItem (stamp rt (clock ?w1)) ?p \<or> i \<in> set (items (store ?w1))"
    using items_record_trace [of rt ?p ?w1] by blast
  moreover have "t_kind (makeItem (stamp rt (clock ?w1)) ?p) = Kai"
    by (simp add: makeItem_def aiTrace_def blank_def)
  ultimately show ?thesis
    by (auto simp: do_fetch_store)
qed

lemma branch_worlds:
  "snd (openaiChat rt args w) = snd (post_and_trace rt ''Chat completion'' (openaiUrl args)
            [(''Authorization'', ''Bearer '' @ trim (or_empty (a_apiKey args))),
             (''Content-Type'', ''application/json'')]
            (openaiBody args) w)"
  "snd (anthropicChat rt args w) = snd (post_and_trace rt ''Anthropic messages'' (anthropicUrl args)
            [(''x-api-key'', or_empty (a_apiKey args)), (''anthropic-version'', ''2023-06-01''),
             (''Content-Type'', ''application/json'')]
            (anthropicBody args) w)"
  "snd (geminiChat rt args w) = snd (post_and_trace rt ''Gemini generateContent'' (geminiUrl rt args)
            [(''Content-Type'', ''application/json'')] (geminiBody args) w)"
  by (simp_all add: openaiChat_def anthropicChat_def geminiChat_def Let_def
      split: sum.split prod.split option.split json.split)

lemma chatCompletionWith_items:
  assumes "i \<in> set (items (store (snd (chatCompletionWith rt args w))))"
  shows "i \<in> set (items (store w)) \<or> t_kind i = Kai"
  using assms post_and_trace_items
  by (auto simp: chatCompletionWith_def branch_worlds split: if_splits)

lemma lastMaximoTrace_first:
  "lastMaximoTrace st
     = (case filter (\<lambda>i. t_kind i = Kmaximo) (items st) of [] \<Rightarrow> None | i # _ \<Rightarrow> Some i)"
proof -
  have one: "max 1 (min 1 (maxItems st)) = 1"
    by simp
  show ?thesis
    by (simp add: lastMaximoTrace_def listTraces_def slice0_def Let_def one split: list.split)
qed

lemma lastMaximoResponse_first:
  "lastMaximoResponse st
     = (case filter (\<lambda>i. t_kind i = Kmaximo) (items st) of [] \<Rightarrow> None | i # _ \<Rightarrow> t_response i)"
  by (simp add: lastMaximoResponse_def lastMaximoTrace_first split: list.split)

lemma truthy_nullish: "truthy (Some r) \<Longrightarrow> nullish (Some r) JNull = r"
  by (cases r) simp_all

lemma chatRoute_summarize:
  assumes "requestMode req = ''maximo''" "\<not> startsWith (trim (requestText req)) ''/''"
    "summarizeIntent (toLowerCase (trim (requestText req)))"
  shows "chatRoute rt cfg req w
         = summarizeLast rt (cfg ++ c_settings req) (requestProvider cfg req) (requestModel req)
             (requestTemperature req) (c_system req) w"
  using assms by (simp add: chatRoute_def maximoRoute_def Let_def)

lemma postChat_sent: "sent (snd (postChat rt cfg req w)) = sent (snd (chatRoute rt cfg req w))"
  by (simp add: postChat_def Let_def res_json_simps split: sum.split prod.split)

lemma postChat_reply:
  assumes "fst (chatRoute rt cfg req w) = Inr (code, body)"
  shows "fst (postChat rt cfg req w) = \<lparr>r_status = code, r_body = body\<rparr>"
  using assms by (simp add: postChat_def Let_def res_json_simps)

lemma postChat_items:
  assumes "i \<in> set (items (store (snd (postChat rt cfg req w))))"
  shows "i \<in> set (items (store (snd (chatRoute rt cfg req w)))) \<or> t_kind i = Krest"
proof (cases "fst (chatRoute rt cfg req w)")
  case (Inl e)
  then show ?thesis
    using assms items_res_json [of i rt "chatCall req" 400 _ "snd (chatRoute rt cfg req w)"]
    by (auto simp: postChat_def Let_def)
next
  case (Inr r)
  obtain code body where "r = (code, body)" by (cases r)
  with Inr show ?thesis
    using assms items_res_json [of i rt "chatCall req" code body "snd (chatRoute rt cfg req w)"]
    by (auto simp: postChat_def Let_def)
qed

lemma summarizeLast_items:
  assumes "i \<in> set (items (store (snd (summarizeLast rt m p model t sys w))))"
  shows "i \<in> set (items (store w)) \<or> t_kind i = Kai"
  using assms chatCompletionWith_items
  by (auto simp: summarizeLast_def Let_def split: if_splits sum.splits)

lemma boundPayload_cases:
  "boundPayload s = (if length s \<le> 120000 then s else take 120000 s @ CHR 0x0A # ''...TRUNCATED'')"
  by (simp add: boundPayload_def)

text \<open>
  What the handler does in backend-query mode for an input that (trimmed) does not begin
  with a slash and whose lower-cased form has the summarize intent. It calls no backend:
  it looks at the newest trace item of kind \<open>maximo\<close>. When that item has a truthy
  response, the handler's result is that of \<open>chatCompletionWith\<close> on a prompt that ends
  with the serialized response, cut to 120000 characters and followed by the truncation
  marker when it was longer; everything sent is sent by \<open>chatCompletionWith\<close>, and every
  trace item recorded is of kind \<open>ai\<close> or \<open>rest\<close>, none of kind \<open>maximo\<close>. When there is
  no such item, or its response is falsy, the answer is 400 and nothing is sent.
\<close>

lemma summarize_last_results:
  assumes "requestMode req = ''maximo''"
    and "\<not> startsWith (trim (requestText req)) ''/''"
    and "summarizeIntent (toLowerCase (trim (requestText req)))"
  shows
    "lastMaximoResponse (store w)
       = (case filter (\<lambda>i. t_kind i = Kmaximo) (items (store w)) of [] \<Rightarrow> None | i # _ \<Rightarrow> t_response i)
     \<and> (\<not> truthy (lastMaximoResponse (store w)) \<longrightarrow>
          fst (postChat rt cfg req w) = \<lparr>r_status = 400, r_body = noPreviousResults\<rparr>
          \<and> snd (chatRoute rt cfg req w) = w
          \<and> sent (snd (postChat rt cfg req w)) = sent w)
     \<and> (lastMaximoResponse (store w) = Some r \<and> truthy (Some r) \<longrightarrow>
          chatRoute rt cfg req w
            = (let out = chatCompletionWith rt
                     (chatArgs (cfg ++ c_settings req) (requestProvider cfg req) (requestModel req)
                        (requestTemperature req) (or_str (c_system req) (Some summarySystem))
                        (summaryPrompt @ boundPayload (JSON_stringify rt r))) w
               in case fst out of
                    Inl e \<Rightarrow> (Inl e, snd out)
                  | Inr res \<Rightarrow> (Inr (200, summaryReply res (store w)), snd out))
          \<and> sent (snd (postChat rt cfg req w))
              = sent (snd (chatCompletionWith rt
                     (chatArgs (cfg ++ c_settings req) (requestProvider cfg req) (requestModel req)
                        (requestTemperature req) (or_str (c_system req) (Some summarySystem))
                        (summaryPrompt @ boundPayload (JSON_stringify rt r))) w)))
     \<and> boundPayload s = (if length s \<le> 120000 then s else take 120000 s @ CHR 0x0A # ''...TRUNCATED'')
     \<and> (\<forall>i \<in> set (items (store (snd (postChat rt cfg req w)))).
           i \<in> set (items (store w)) \<or> t_kind i = Kai \<or> t_kind i = Krest)"
proof -
  note route = chatRoute_summarize [OF assms, of rt cfg w]
  have none: "fst (postChat rt cfg req w) = \<lparr>r_status = 400, r_body = noPreviousResults\<rparr>
          \<and> snd (chatRoute rt cfg req w) = w
          \<and> sent (snd (postChat rt cfg req w)) = sent w"
    if "\<not> truthy (lastMaximoResponse (store w))"
  proof -
    have "chatRoute rt cfg req w = (Inr (400, noPreviousResults), w)"
      using that by (simp add: route summarizeLast_def)
    then show ?thesis
      using postChat_reply [of rt cfg req w 400 noPreviousResults] by (simp add: postChat_sent)
  qed
  have some: "chatRoute rt cfg req w
            = (let out = chatCompletionWith rt
                     (chatArgs (cfg ++ c_settings req) (requestProvider cfg req) (requestModel req)
                        (requestTemperature req) (or_str (c_system req) (Some summarySystem))
                        (summaryPrompt @ boundPayload (JSON_stringify rt r))) w
               in case fst out of
                    Inl e \<Rightarrow> (Inl e, snd out)
                  | Inr res \<Rightarrow> (Inr (200, summaryReply res (store w)), snd out))"
    if "lastMaximoResponse (store w) = Some r \<and> truthy (Some r)"
    using that by (simp add: route summarizeLast_def summaryInput_def truthy_nullish)
  have some_sent: "sent (snd (postChat rt cfg req w))
              = sent (snd (chatCompletionWith rt
                     (chatArgs (cfg ++ c_settings req) (requestProvider cfg req) (requestModel req)
                        (requestTemperature req) (or_str (c_system req) (Some summarySystem))
                        (summaryPrompt @ boundPayload (JSON_stringify rt r))) w))"
    if "lastMaximoResponse (store w) = Some r \<and> truthy (Some r)"
    unfolding postChat_sent some [OF that] by (simp add: Let_def split: sum.split)
  have kinds: "\<forall>i \<in> set (items (store (snd (postChat rt cfg req w)))).
           i \<in> set (items (store w)) \<or> t_kind i = Kai \<or> t_kind i = Krest"
    using postChat_items [of _ rt cfg req w] summarizeLast_items unfolding route by blast
  show ?thesis
    using none some some_sent kinds lastMaximoResponse_first [of "store w"] boundPayload_cases [of s]
    by blast
qed

lemma summarize_request_facts:
  "requestMode (sampleMaximoRequest ''Summarize the last Maximo results'') = ''maximo''
   \<and> \<not> startsWith (trim (requestText (sampleMaximoRequest ''Summarize the last Maximo results''))) ''/''
   \<and> summarizeIntent (toLowerCase (trim (requestText (sampleMaximoRequest ''Summarize the last Maximo results''))))"
proof -
  have t: "trim ''Summarize the last Maximo results'' = ''Summarize the last Maximo results''"
    by (simp add: trim_def isSpace_def)
  have l: "toLowerCase ''Summarize the last Maximo results'' = ''summarize the last maximo results''"
    by (simp add: toLowerCase_def lowerChar_def)
  have "summarizeIntent ''summarize the last maximo results''"
    by (simp add: summarizeIntent_def startsWith_def)
  then show ?thesis
    by (simp add: sampleMaximoRequest_simps t l startsWith_def)
qed

lemma sampleTracedWorld_response:
  "lastMaximoResponse (store sampleTracedWorld) = Some (JStr ''rows'')"
  "sent sampleTracedWorld = []"
  by (simp_all add: lastMaximoResponse_first sampleTracedWorld_def initialWorld_def initialStore_def
      addTrace_def makeItem_def blank_def Let_def)

lemma initialWorld_response:
  "lastMaximoResponse (store initialWorld) = None"
  by (simp add: lastMaximoResponse_first initialWorld_def initialStore_def)

lemma openai_key_resolved:
  "resolveProviderAuth [''openai_key'' \<mapsto> ''sk''] ''openai'' = \<lparr>apiKey = Some ''sk'', baseUrl = None\<rparr>"
  by (simp add: resolveProviderAuth_def providerEntry_def or_undefined_def trim_def isSpace_def
      toLowerCase_def Let_def)

lemma sample_provider:
  "requestProvider [''openai_key'' \<mapsto> ''sk''] (sampleMaximoRequest t) = ''openai''"
  by (simp add: requestProvider_def getSelectedProvider_def sampleMaximoRequest_def
      toLowerCase_def lowerChar_def Let_def)

lemma openai_sent:
  assumes "a_provider args = ''openai''" "or_empty (a_apiKey args) \<noteq> []"
  shows "map rq_url (sent (snd (chatCompletionWith rt args w))) = map rq_url (sent w) @ [openaiUrl args]"
  using assms
  by (simp add: chatCompletionWith_def OPENAI_COMPATIBLE_def branch_worlds post_and_trace_sent)

lemma summarize_last_results_example:
  "requestMode (sampleMaximoRequest ''Summarize the last Maximo results'') = ''maximo''
   \<and> \<not> startsWith (trim (requestText (sampleMaximoRequest ''Summarize the last Maximo results''))) ''/''
   \<and> summarizeIntent (toLowerCase (trim (requestText (sampleMaximoRequest ''Summarize the last Maximo results''))))
   \<and> fst (postChat sampleRuntime [''openai_key'' \<mapsto> ''sk'']
        (sampleMaximoRequest ''Summarize the last Maximo results'') initialWorld)
       = \<lparr>r_status = 400, r_body = noPreviousResults\<rparr>
   \<and> sent (snd (postChat sampleRuntime [''openai_key'' \<mapsto> ''sk'']
        (sampleMaximoRequest ''Summarize the last Maximo results'') initialWorld)) = []
   \<and> lastMaximoResponse (store sampleTracedWorld) = Some (JStr ''rows'')
   \<and> truthy (Some (JStr ''rows''))
   \<and> map rq_url (sent (snd (postChat sampleRuntime [''openai_key'' \<mapsto> ''sk'']
        (sampleMaximoRequest ''Summarize the last Maximo results'') sampleTracedWorld)))
       = [''https://api.openai.com/v1/chat/completions'']"
proof -
  let ?req = "sampleMaximoRequest ''Summarize the last Maximo results''"
  let ?cfg = "[''openai_key'' \<mapsto> ''sk'']"
  note facts = summarize_request_facts
  note inst0 = summarize_last_results [of ?req initialWorld sampleRuntime ?cfg _ _,
      OF facts [THEN conjunct1] facts [THEN conjunct2, THEN conjunct1] facts [THEN conjunct2, THEN conjunct2],
      THEN conjunct2, THEN conjunct1]
  note inst1 = summarize_last_results [of ?req sampleTracedWorld sampleRuntime ?cfg "JStr ''rows''" _,
      OF facts [THEN conjunct1] facts [THEN conjunct2, THEN conjunct1] facts [THEN conjunct2, THEN conjunct2],
      THEN conjunct2, THEN conjunct2, THEN conjunct1]
  have w0: "fst (postChat sampleRuntime ?cfg ?req initialWorld) = \<lparr>r_status = 400, r_body = noPreviousResults\<rparr>
            \<and> sent (snd (postChat sampleRuntime ?cfg ?req initialWorld)) = []"
    using inst0 by (simp add: initialWorld_response) (simp add: initialWorld_def)
  have w1: "map rq_url (sent (snd (postChat sampleRuntime ?cfg ?req sampleTracedWorld)))
       = [''https://api.openai.com/v1/chat/completions'']"
    using inst1
    by (simp add: sampleTracedWorld_response sample_provider sampleMaximoRequest_simps
        openai_sent chatArgs_simps openai_key_resolved openaiUrl_def stripTrailingSlash_def)
  show ?thesis
    using facts w0 w1 by (simp add: sampleTracedWorld_response)
qed




end
